theory Spec2Isabelle
  imports Complex_Main "HOL-Library.Word"
begin

unbundle bit_operations_syntax

section \<open>Numbers and embedding blobs\<close>

text \<open>
  A JavaScript number is a 64-bit IEEE 754 double. The model keeps it as its bit pattern,
  which is what \<^verbatim>\<open>Float64Array\<close> writes to and reads from a buffer. A buffer is a list
  of bytes. \<^verbatim>\<open>new Float64Array(vec).buffer\<close> lays every element out in eight bytes in the
  byte order of the platform; the model takes the little-endian order (least significant
  byte first) of the platforms the extension is built for.
\<close>

type_synonym byte = "8 word"
type_synonym number = "64 word"

datatype error =
    RangeError
  | InvalidMemoryId string
  | ConstraintError string

definition number_bytes :: "number \<Rightarrow> byte list" where
  "number_bytes w = map (\<lambda>i. ucast (drop_bit (8 * i) w)) [0..<8]"

definition bytes_number :: "byte list \<Rightarrow> number" where
  "bytes_number bs = word_of_int (horner_sum uint (2 ^ 8) bs)"

text \<open>
  \<^verbatim>\<open>encodeEmbedding(vec) = Buffer.from(new Float64Array(vec).buffer)\<close>: the elements one
  after the other, eight bytes each.
\<close>

definition encodeEmbedding :: "number list \<Rightarrow> byte list" where
  "encodeEmbedding vec = concat (map number_bytes vec)"

text \<open>
  \<^verbatim>\<open>decodeEmbedding(blob)\<close> copies the bytes of the blob and views them as a
  \<^verbatim>\<open>Float64Array\<close>. The constructor throws a RangeError when the byte length is not a
  multiple of eight; otherwise every group of eight bytes is one element.
\<close>

fun float64_view :: "nat \<Rightarrow> byte list \<Rightarrow> number list" where
  "float64_view 0 bs = []"
| "float64_view (Suc n) bs = bytes_number (take 8 bs) # float64_view n (drop 8 bs)"

definition decodeEmbedding :: "byte list \<Rightarrow> error + number list" where
  "decodeEmbedding blob =
     (if length blob mod 8 \<noteq> 0 then Inl RangeError
      else Inr (float64_view (length blob div 8) blob))"

section \<open>Double-precision arithmetic\<close>

text \<open>
  The arithmetic of the program is the arithmetic of IEEE 754 binary64 numbers, with
  rounding to nearest, ties to even. A bit pattern has the sign in bit 63, the biased
  exponent in bits 52 to 62 and the fraction in bits 0 to 51. Exponent 2047 holds the
  infinities (fraction 0) and the NaNs; exponent 0 holds the zeros and the subnormal numbers.
\<close>

definition sign_of :: "number \<Rightarrow> bool" where
  "sign_of w = bit w 63"

definition exponent :: "number \<Rightarrow> nat" where
  "exponent w = unat (take_bit 11 (drop_bit 52 w))"

definition fraction :: "number \<Rightarrow> nat" where
  "fraction w = unat (take_bit 52 w)"

datatype float_value = Finite real | Infinite bool | NaN

definition value_of :: "number \<Rightarrow> float_value" where
  "value_of w =
     (if exponent w = 2047 then (if fraction w = 0 then Infinite (sign_of w) else NaN)
      else Finite ((if sign_of w then - 1 else 1) *
             (if exponent w = 0 then real (fraction w) * 2 powi (- 1074)
              else (2 ^ 52 + real (fraction w)) * 2 powi (int (exponent w) - 1075))))"

definition pack :: "bool \<Rightarrow> nat \<Rightarrow> nat \<Rightarrow> number" where
  "pack s e m = word_of_nat ((if s then 2 ^ 63 else 0) + e * 2 ^ 52 + m)"

definition the_nan :: number where "the_nan = pack False 2047 (2 ^ 51)"
definition infinity :: "bool \<Rightarrow> number" where "infinity s = pack s 2047 0"
definition zero :: "bool \<Rightarrow> number" where "zero s = pack s 0 0"

text \<open>
  Rounding a real number to the nearest double. \<open>k\<close> is the exponent of the binade of the
  number, not below that of the subnormal numbers; \<open>n\<close> is the significand in units of the
  last place, rounded half to even; a significand rounded up to \<open>2 ^ 53\<close> moves to the next
  binade, and a number beyond the largest binade becomes an infinity. An exact zero takes
  the sign \<open>z\<close> that the operation gives it.
\<close>

definition round_half_even :: "real \<Rightarrow> int" where
  "round_half_even r =
     (let f = \<lfloor>r\<rfloor>
      in if r - of_int f < 1 / 2 then f
         else if r - of_int f > 1 / 2 then f + 1
         else if even f then f else f + 1)"

definition fl :: "bool \<Rightarrow> real \<Rightarrow> number" where
  "fl z x =
     (if x = 0 then zero z
      else
        let s = x < 0; a = \<bar>x\<bar>;
            k = max \<lfloor>log 2 a\<rfloor> (- 1022);
            n = round_half_even (a / 2 powi (k - 52));
            k' = (if n = 2 ^ 53 then k + 1 else k);
            n' = (if n = 2 ^ 53 then 2 ^ 52 else n)
        in if k' > 1023 then infinity s
           else if n' < 2 ^ 52 then pack s 0 (nat n')
           else pack s (nat (k' + 1023)) (nat (n' - 2 ^ 52)))"

definition is_nan :: "number \<Rightarrow> bool" where
  "is_nan w = (value_of w = NaN)"

definition is_zero :: "number \<Rightarrow> bool" where
  "is_zero w = (value_of w = Finite 0)"

definition is_finite :: "number \<Rightarrow> bool" where
  "is_finite w = (case value_of w of Finite x \<Rightarrow> True | Infinite s \<Rightarrow> False | NaN \<Rightarrow> False)"

text \<open>The operations \<open>*\<close>, \<open>+\<close>, \<open>-\<close>, \<open>/\<close> and \<^verbatim>\<open>Math.sqrt\<close>.\<close>

definition fneg :: "number \<Rightarrow> number" where
  "fneg w = w XOR push_bit 63 1"

definition fmul :: "number \<Rightarrow> number \<Rightarrow> number" where
  "fmul a b =
     (case value_of a of
        NaN \<Rightarrow> the_nan
      | Infinite s \<Rightarrow>
          (case value_of b of
             NaN \<Rightarrow> the_nan
           | Infinite t \<Rightarrow> infinity (s \<noteq> t)
           | Finite y \<Rightarrow> if y = 0 then the_nan else infinity (s \<noteq> sign_of b))
      | Finite x \<Rightarrow>
          (case value_of b of
             NaN \<Rightarrow> the_nan
           | Infinite t \<Rightarrow> if x = 0 then the_nan else infinity (sign_of a \<noteq> t)
           | Finite y \<Rightarrow> fl (sign_of a \<noteq> sign_of b) (x * y)))"

definition fadd :: "number \<Rightarrow> number \<Rightarrow> number" where
  "fadd a b =
     (case value_of a of
        NaN \<Rightarrow> the_nan
      | Infinite s \<Rightarrow>
          (case value_of b of
             NaN \<Rightarrow> the_nan
           | Infinite t \<Rightarrow> if s = t then infinity s else the_nan
           | Finite y \<Rightarrow> infinity s)
      | Finite x \<Rightarrow>
          (case value_of b of
             NaN \<Rightarrow> the_nan
           | Infinite t \<Rightarrow> infinity t
           | Finite y \<Rightarrow> fl (sign_of a \<and> sign_of b) (x + y)))"

definition fsub :: "number \<Rightarrow> number \<Rightarrow> number" where
  "fsub a b = fadd a (fneg b)"

definition fdiv :: "number \<Rightarrow> number \<Rightarrow> number" where
  "fdiv a b =
     (case value_of a of
        NaN \<Rightarrow> the_nan
      | Infinite s \<Rightarrow>
          (case value_of b of
             NaN \<Rightarrow> the_nan
           | Infinite t \<Rightarrow> the_nan
           | Finite y \<Rightarrow> infinity (s \<noteq> sign_of b))
      | Finite x \<Rightarrow>
          (case value_of b of
             NaN \<Rightarrow> the_nan
           | Infinite t \<Rightarrow> zero (sign_of a \<noteq> t)
           | Finite y \<Rightarrow>
               if y = 0 then (if x = 0 then the_nan else infinity (sign_of a \<noteq> sign_of b))
               else fl (sign_of a \<noteq> sign_of b) (x / y)))"

definition fsqrt :: "number \<Rightarrow> number" where
  "fsqrt a =
     (case value_of a of
        NaN \<Rightarrow> the_nan
      | Infinite s \<Rightarrow> if s then the_nan else a
      | Finite x \<Rightarrow> if x < 0 then the_nan else if x = 0 then a else fl False (sqrt x))"

text \<open>
  The comparisons \<open>>\<close> and \<open>>=\<close>, false whenever an operand is NaN, and
  \<^verbatim>\<open>Math.min\<close> of two numbers, NaN whenever an operand is, and \<open>-0\<close> below \<open>+0\<close>.
\<close>

fun value_less :: "float_value \<Rightarrow> float_value \<Rightarrow> bool" where
  "value_less (Finite x) (Finite y) = (x < y)"
| "value_less (Finite x) (Infinite t) = (\<not> t)"
| "value_less (Infinite s) (Finite y) = s"
| "value_less (Infinite s) (Infinite t) = (s \<and> \<not> t)"
| "value_less NaN v = False"
| "value_less u NaN = False"

fun value_le :: "float_value \<Rightarrow> float_value \<Rightarrow> bool" where
  "value_le (Finite x) (Finite y) = (x \<le> y)"
| "value_le (Finite x) (Infinite t) = (\<not> t)"
| "value_le (Infinite s) (Finite y) = s"
| "value_le (Infinite s) (Infinite t) = (s \<or> \<not> t)"
| "value_le NaN v = False"
| "value_le u NaN = False"

definition fgt :: "number \<Rightarrow> number \<Rightarrow> bool" where
  "fgt a b = value_less (value_of b) (value_of a)"

definition fge :: "number \<Rightarrow> number \<Rightarrow> bool" where
  "fge a b = value_le (value_of b) (value_of a)"

definition fpositive :: "number \<Rightarrow> bool" where
  "fpositive w = value_less (Finite 0) (value_of w)"



text \<open>
  The number literals of the program, as the doubles the language reads them as: \<open>0\<close>,
  \<open>1\<close> (also written \<open>1.0\<close>), \<open>2\<close> and \<open>0.95\<close>.
\<close>

definition double_0 :: number where "double_0 = 0"
definition double_1 :: number where "double_1 = 0x3FF0000000000000"
definition double_2 :: number where "double_2 = 0x4000000000000000"
definition double_0_95 :: number where "double_0_95 = 0x3FEE666666666666"

subsection \<open>Array.prototype.sort and Array.prototype.slice\<close>

text \<open>
  \<^verbatim>\<open>sort(comparefn)\<close> is a stable sort: an element goes after another one when the
  comparison function gives a number above 0 for the pair (a NaN counts as 0). The model
  inserts the elements one by one, from the last to the first, each before the first
  element it does not go after. For a consistent comparison function this is the result of
  every stable sort; for an inconsistent one the language leaves the order to the
  implementation, and the model takes this one.
\<close>

fun insert_by :: "('a \<Rightarrow> 'a \<Rightarrow> number) \<Rightarrow> 'a \<Rightarrow> 'a list \<Rightarrow> 'a list" where
  "insert_by comparefn x [] = [x]"
| "insert_by comparefn x (y # ys) =
     (if fpositive (comparefn x y) then y # insert_by comparefn x ys else x # y # ys)"

definition js_sort :: "('a \<Rightarrow> 'a \<Rightarrow> number) \<Rightarrow> 'a list \<Rightarrow> 'a list" where
  "js_sort comparefn xs = foldr (insert_by comparefn) xs []"

text \<open>
  \<^verbatim>\<open>slice(0, end)\<close>: the end is made an integer by truncation (NaN counts as 0, the
  infinities stay); a negative end counts from the end of the array; the result runs from
  the first element to the end so found, within the array.
\<close>

definition slice_0 :: "'a list \<Rightarrow> number \<Rightarrow> 'a list" where
  "slice_0 xs endIndex =
     (case value_of endIndex of
        NaN \<Rightarrow> []
      | Infinite negative \<Rightarrow> if negative then [] else xs
      | Finite x \<Rightarrow>
          (let relativeEnd = (if x < 0 then \<lceil>x\<rceil> else \<lfloor>x\<rfloor>)
           in if relativeEnd < 0 then take (nat (max (int (length xs) + relativeEnd) 0)) xs
              else take (nat (min relativeEnd (int (length xs)))) xs))"

text \<open>A count of results is at most a number.\<close>

definition at_most :: "nat \<Rightarrow> number \<Rightarrow> bool" where
  "at_most n limit = value_le (Finite (real n)) (value_of limit)"

section \<open>Similarity\<close>

text \<open>
  \<^verbatim>\<open>cosineSimilarity(a, b)\<close>: the loop runs \<open>i\<close> from 0 to
  \<open>len = min(a.length, b.length)\<close> and accumulates \<open>dot\<close>, \<open>normA\<close> and \<open>normB\<close>, every
  product and every sum rounded; the result is 0 when the product of the two square roots
  compares equal to 0, and the rounded quotient otherwise.
\<close>

function cosine_loop ::
  "number list \<Rightarrow> number list \<Rightarrow> nat \<Rightarrow> nat \<Rightarrow> number \<times> number \<times> number \<Rightarrow>
     number \<times> number \<times> number" where
  "cosine_loop a b len i (dot, normA, normB) =
     (if i < len
      then cosine_loop a b len (i + 1)
             (fadd dot (fmul (a ! i) (b ! i)),
              fadd normA (fmul (a ! i) (a ! i)),
              fadd normB (fmul (b ! i) (b ! i)))
      else (dot, normA, normB))"
  by pat_completeness auto
termination
  by (relation "measure (\<lambda>(a, b, len, i, acc). len - i)") auto

declare cosine_loop.simps [simp del]

definition cosineSimilarity :: "number list \<Rightarrow> number list \<Rightarrow> number" where
  "cosineSimilarity a b =
     (let len = min (length a) (length b);
          (dot, normA, normB) = cosine_loop a b len 0 (double_0, double_0, double_0);
          denom = fmul (fsqrt normA) (fsqrt normB)
      in if is_zero denom then double_0 else fdiv dot denom)"

text \<open>
  The specification's words, read in the arithmetic of the program: the cosine similarity of
  the shared prefixes of length \<open>min (length a) (length b)\<close> is their dot product divided by
  the product of their magnitudes, and 0 where that product is zero. Sums are taken from
  the left, starting from 0.
\<close>

definition fsum :: "number list \<Rightarrow> number" where
  "fsum xs = foldl fadd double_0 xs"

definition dot_product :: "number list \<Rightarrow> number list \<Rightarrow> number" where
  "dot_product u v = fsum (map (\<lambda>(x, y). fmul x y) (zip u v))"

definition squared_magnitude :: "number list \<Rightarrow> number" where
  "squared_magnitude u = fsum (map (\<lambda>x. fmul x x) u)"

definition magnitude :: "number list \<Rightarrow> number" where
  "magnitude u = fsqrt (squared_magnitude u)"

definition shared_prefix :: "number list \<Rightarrow> number list \<Rightarrow> number list \<times> number list" where
  "shared_prefix a b =
     (let n = min (length a) (length b) in (take n a, take n b))"

definition prefix_cosine :: "number list \<Rightarrow> number list \<Rightarrow> number" where
  "prefix_cosine a b =
     (let (u, v) = shared_prefix a b
      in if is_zero (fmul (magnitude u) (magnitude v)) then double_0
         else fdiv (dot_product u v) (fmul (magnitude u) (magnitude v)))"


section \<open>The memory store\<close>

text \<open>
  A \<^verbatim>\<open>MemoryEntry\<close> as the program hands it out, and the row of the \<open>memories\<close> table
  that persists it. The row keeps the embedding as a blob, or NULL for a row inserted by the
  bulk import. The \<open>tags\<close> column holds the JSON text of a string array; it is written
  only through \<^verbatim>\<open>JSON.stringify\<close> and read through \<^verbatim>\<open>JSON.parse\<close>, and the model
  keeps the array itself. \<open>created_at\<close> is the millisecond clock.
\<close>

record MemoryEntry =
  entry_id :: string
  content :: string
  embedding :: "number list"
  created_at :: int
  source :: string
  tags :: "string list"
  category :: string

record MemorySearchResult =
  entry :: MemoryEntry
  score :: number

record memory_row =
  row_id :: string
  row_content :: string
  row_embedding :: "byte list option"
  row_created_at :: int
  row_source :: string
  row_tags :: "string list"
  row_category :: string

record memory_edge =
  edge_id :: string
  from_id :: string
  to_id :: string
  relation :: string
  edge_created_at :: int

text \<open>
  The database: the two tables the claims are about, each a list of rows in the order a
  \<^verbatim>\<open>SELECT\<close> without \<^verbatim>\<open>ORDER BY\<close> returns them.
\<close>

record database =
  memories :: "memory_row list"
  memory_edges :: "memory_edge list"

subsection \<open>vectorSearch\<close>

text \<open>
  The loop over the rows: a row without an embedding is skipped, a row whose blob does not
  decode is skipped (the \<^verbatim>\<open>catch\<close>), a row with \<open>score >= minScore\<close> is pushed onto
  the results.
\<close>

definition row_entry :: "memory_row \<Rightarrow> number list \<Rightarrow> MemoryEntry" where
  "row_entry row stored =
     \<lparr>entry_id = row_id row, content = row_content row, embedding = stored,
      created_at = row_created_at row, source = row_source row, tags = row_tags row,
      category = row_category row\<rparr>"

fun scan_rows :: "number list \<Rightarrow> number \<Rightarrow> memory_row list \<Rightarrow> MemorySearchResult list" where
  "scan_rows queryEmbedding minScore [] = []"
| "scan_rows queryEmbedding minScore (row # rows) =
     (case row_embedding row of
        None \<Rightarrow> scan_rows queryEmbedding minScore rows
      | Some blob \<Rightarrow>
          (case decodeEmbedding blob of
             Inl err \<Rightarrow> scan_rows queryEmbedding minScore rows
           | Inr stored \<Rightarrow>
               (let s = cosineSimilarity queryEmbedding stored
                in if fge s minScore
                   then \<lparr>entry = row_entry row stored, score = s\<rparr>
                          # scan_rows queryEmbedding minScore rows
                   else scan_rows queryEmbedding minScore rows)))"

text \<open>
  \<^verbatim>\<open>results.sort((a, b) => b.score - a.score).slice(0, limit)\<close>: the comparison
  function is the rounded difference of the scores, and \<open>limit\<close> is whatever number the
  caller gives.
\<close>

definition by_score :: "MemorySearchResult \<Rightarrow> MemorySearchResult \<Rightarrow> number" where
  "by_score a b = fsub (score b) (score a)"

definition sort_desc :: "MemorySearchResult list \<Rightarrow> MemorySearchResult list" where
  "sort_desc results = js_sort by_score results"

definition vectorSearch ::
  "database \<Rightarrow> number list \<Rightarrow> number \<Rightarrow> number \<Rightarrow> MemorySearchResult list" where
  "vectorSearch db queryEmbedding limit minScore =
     slice_0 (sort_desc (scan_rows queryEmbedding minScore (memories db))) limit"

text \<open>Descending order of score: every result scores \<open>>=\<close> every later one.\<close>

definition descending :: "MemorySearchResult list \<Rightarrow> bool" where
  "descending results = sorted_wrt (\<lambda>a b. fge (score a) (score b)) results"

text \<open>The rows a scan can score: those with an embedding that decodes.\<close>

definition indexed :: "memory_row \<Rightarrow> bool" where
  "indexed row =
     (case row_embedding row of
        None \<Rightarrow> False
      | Some blob \<Rightarrow> (case decodeEmbedding blob of Inl err \<Rightarrow> False | Inr stored \<Rightarrow> True))"

text \<open>
  What the scan computes for one row: the score of the row against the query when the row
  is indexed, and the result pushed for it when that score reaches \<open>minScore\<close>.
\<close>

definition similarity_to :: "number list \<Rightarrow> memory_row \<Rightarrow> number option" where
  "similarity_to queryEmbedding row =
     (case row_embedding row of
        None \<Rightarrow> None
      | Some blob \<Rightarrow>
          (case decodeEmbedding blob of
             Inl err \<Rightarrow> None
           | Inr stored \<Rightarrow> Some (cosineSimilarity queryEmbedding stored)))"

definition candidate ::
  "number list \<Rightarrow> number \<Rightarrow> memory_row \<Rightarrow> MemorySearchResult option" where
  "candidate queryEmbedding minScore row =
     (case row_embedding row of
        None \<Rightarrow> None
      | Some blob \<Rightarrow>
          (case decodeEmbedding blob of
             Inl err \<Rightarrow> None
           | Inr stored \<Rightarrow>
               (let s = cosineSimilarity queryEmbedding stored
                in if fge s minScore then Some \<lparr>entry = row_entry row stored, score = s\<rparr>
                   else None)))"

subsection \<open>vectorSearchBoosted\<close>











definition no_nan_scores :: "MemorySearchResult list \<Rightarrow> bool" where
  "no_nan_scores results = list_all (\<lambda>r. \<not> is_nan (score r)) results"

subsection \<open>store\<close>

text \<open>
  The options of \<^verbatim>\<open>store\<close>, every one of them optional. The clock
  (\<^verbatim>\<open>Date.now()\<close>) and the generated identifier (\<^verbatim>\<open>randomUUID()\<close>) are inputs of
  the model. The operation returns its outcome and the database after it.
\<close>

record store_opts =
  opt_source :: "string option"
  opt_tags :: "string list option"
  opt_category :: "string option"
  dedupeThreshold :: "number option"

record store_result =
  stored_entry :: MemoryEntry
  isDuplicate :: bool
  updatedId :: "string option"

definition or_default :: "'a option \<Rightarrow> 'a \<Rightarrow> 'a" where
  "or_default v d = (case v of None \<Rightarrow> d | Some x \<Rightarrow> x)"

text \<open>\<^verbatim>\<open>UPDATE memories SET ... WHERE id = ?\<close>\<close>

definition update_memory ::
  "string \<Rightarrow> string \<Rightarrow> byte list \<Rightarrow> int \<Rightarrow> string \<Rightarrow> string list \<Rightarrow> string \<Rightarrow>
     memory_row list \<Rightarrow> memory_row list" where
  "update_memory i c blob now src tgs cat rows =
     map (\<lambda>row. if row_id row = i
                then row\<lparr>row_content := c, row_embedding := Some blob, row_created_at := now,
                         row_source := src, row_tags := tgs, row_category := cat\<rparr>
                else row) rows"

definition store ::
  "string \<Rightarrow> number list \<Rightarrow> store_opts \<Rightarrow> int \<Rightarrow> string \<Rightarrow> database \<Rightarrow>
     (error + store_result) \<times> database" where
  "store c emb opts now uuid db =
     (let threshold = or_default (dedupeThreshold opts) double_0_95;
          existing = vectorSearch db emb double_1 threshold
      in case existing of
           r # rest \<Rightarrow>
             (let ex = entry r
              in (Inr \<lparr>stored_entry = ex\<lparr>content := c, embedding := emb, created_at := now\<rparr>,
                       isDuplicate = True, updatedId = Some (entry_id ex)\<rparr>,
                  db\<lparr>memories :=
                       update_memory (entry_id ex) c (encodeEmbedding emb) now
                         (or_default (opt_source opts) [])
                         (or_default (opt_tags opts) [])
                         (or_default (opt_category opts) (category ex))
                         (memories db)\<rparr>))
         | [] \<Rightarrow>
             (let e = \<lparr>entry_id = uuid, content = c, embedding = emb, created_at = now,
                       source = or_default (opt_source opts) [],
                       tags = or_default (opt_tags opts) [],
                       category = or_default (opt_category opts) ''other''\<rparr>
              in if uuid \<in> set (map row_id (memories db))
                 then (Inl (ConstraintError uuid), db)
                 else (Inr \<lparr>stored_entry = e, isDuplicate = False, updatedId = None\<rparr>,
                       db\<lparr>memories := memories db @
                            [\<lparr>row_id = uuid, row_content = c,
                              row_embedding = Some (encodeEmbedding emb), row_created_at = now,
                              row_source = source e, row_tags = tags e,
                              row_category = category e\<rparr>]\<rparr>)))"

text \<open>\<^verbatim>\<open>count()\<close>\<close>

definition count :: "database \<Rightarrow> nat" where
  "count db = length (memories db)"

text \<open>
  The specification's words for \<^verbatim>\<open>store\<close>. A best match of an embedding is a
  row whose score against it no other row exceeds. Overwriting a row in place replaces
  content, embedding, \<open>created_at\<close>, source and tags, and keeps the category unless the
  options give one. The row of a new record has the generated identifier.
\<close>

definition best_match :: "number list \<Rightarrow> memory_row list \<Rightarrow> memory_row \<Rightarrow> number \<Rightarrow> bool" where
  "best_match emb rows ex s =
     (ex \<in> set rows \<and> similarity_to emb ex = Some s
      \<and> list_all (\<lambda>row. case similarity_to emb row of None \<Rightarrow> True | Some s' \<Rightarrow> \<not> fgt s' s) rows)"

definition reaches :: "number list \<Rightarrow> number \<Rightarrow> memory_row list \<Rightarrow> bool" where
  "reaches emb threshold rows =
     list_ex (\<lambda>row. case similarity_to emb row of None \<Rightarrow> False | Some s \<Rightarrow> fge s threshold) rows"

definition overwritten ::
  "memory_row \<Rightarrow> string \<Rightarrow> number list \<Rightarrow> int \<Rightarrow> store_opts \<Rightarrow> memory_row" where
  "overwritten ex c emb now opts =
     \<lparr>row_id = row_id ex, row_content = c, row_embedding = Some (encodeEmbedding emb),
      row_created_at = now, row_source = or_default (opt_source opts) [],
      row_tags = or_default (opt_tags opts) [],
      row_category = or_default (opt_category opts) (row_category ex)\<rparr>"

definition inserted :: "string \<Rightarrow> string \<Rightarrow> number list \<Rightarrow> int \<Rightarrow> store_opts \<Rightarrow> memory_row" where
  "inserted uuid c emb now opts =
     \<lparr>row_id = uuid, row_content = c, row_embedding = Some (encodeEmbedding emb),
      row_created_at = now, row_source = or_default (opt_source opts) [],
      row_tags = or_default (opt_tags opts) [],
      row_category = or_default (opt_category opts) ''other''\<rparr>"

subsection \<open>delete and deleteBySource\<close>

text \<open>
  The pattern \<^verbatim>\<open>/^[0-9a-f]{8}-[0-9a-f]{4}-[0-9a-f]{4}-[0-9a-f]{4}-[0-9a-f]{12}$/i\<close>:
  five runs of hexadecimal digits of either case, of lengths 8, 4, 4, 4 and 12, with a
  hyphen between them and nothing before or after. This is the textual shape of a UUID; the
  pattern does not look at the version or variant digits.
\<close>

definition hex_digit :: "char \<Rightarrow> bool" where
  "hex_digit ch =
     (ch \<in> set ''0123456789'' \<or> ch \<in> set ''abcdef'' \<or> ch \<in> set ''ABCDEF'')"

fun hex_groups :: "nat list \<Rightarrow> string \<Rightarrow> bool" where
  "hex_groups [] s = (s = [])"
| "hex_groups [n] s = (length s = n \<and> list_all hex_digit s)"
| "hex_groups (n # ns) s =
     (n < length s \<and> list_all hex_digit (take n s) \<and> s ! n = CHR ''-''
      \<and> hex_groups ns (drop (Suc n) s))"

definition uuid_shape :: "string \<Rightarrow> bool" where
  "uuid_shape s = hex_groups [8, 4, 4, 4, 12] s"

text \<open>\<^verbatim>\<open>DELETE FROM memory_edges WHERE from_id = ? OR to_id = ?\<close>\<close>

definition delete_edges_of :: "string \<Rightarrow> database \<Rightarrow> database" where
  "delete_edges_of i db =
     db\<lparr>memory_edges := filter (\<lambda>e. \<not> (from_id e = i \<or> to_id e = i)) (memory_edges db)\<rparr>"

text \<open>
  \<^verbatim>\<open>DELETE FROM memories WHERE ...\<close> with \<^verbatim>\<open>foreign_keys = ON\<close>: the rows that
  match go, and \<^verbatim>\<open>ON DELETE CASCADE\<close> takes with them the edges that still name one of
  them. The second component is \<^verbatim>\<open>changes\<close>, the number of rows of \<open>memories\<close> deleted.
\<close>

definition delete_memories :: "(memory_row \<Rightarrow> bool) \<Rightarrow> database \<Rightarrow> database \<times> nat" where
  "delete_memories P db =
     (let gone = map row_id (filter P (memories db))
      in (\<lparr>memories = filter (\<lambda>row. \<not> P row) (memories db),
           memory_edges =
             filter (\<lambda>e. from_id e \<notin> set gone \<and> to_id e \<notin> set gone) (memory_edges db)\<rparr>,
          length gone))"

definition delete :: "string \<Rightarrow> database \<Rightarrow> (error + bool) \<times> database" where
  "delete i db =
     (if \<not> uuid_shape i then (Inl (InvalidMemoryId i), db)
      else (Inr True, fst (delete_memories (\<lambda>row. row_id row = i) (delete_edges_of i db))))"

definition deleteBySource :: "string \<Rightarrow> database \<Rightarrow> nat \<times> database" where
  "deleteBySource src db =
     (let ids = map row_id (filter (\<lambda>row. row_source row = src) (memories db));
          db1 = fold delete_edges_of ids db;
          (db2, changes) = delete_memories (\<lambda>row. row_source row = src) db1
      in (changes, db2))"

text \<open>Referential integrity of \<open>memory_edges\<close>: both ends of every edge are memories.\<close>

definition memory_ids :: "database \<Rightarrow> string set" where
  "memory_ids db = set (map row_id (memories db))"

definition edges_intact :: "database \<Rightarrow> bool" where
  "edges_intact db =
     list_all (\<lambda>e. from_id e \<in> memory_ids db \<and> to_id e \<in> memory_ids db) (memory_edges db)"

definition edges_of :: "string \<Rightarrow> database \<Rightarrow> memory_edge list" where
  "edges_of i db = filter (\<lambda>e. from_id e = i \<or> to_id e = i) (memory_edges db)"

section \<open>The embedding providers\<close>

subsection \<open>DualEmbeddings.embed\<close>

text \<open>
  A provider answers a text with a vector or fails with an error; a call goes over the
  network or into the model, and the model takes its outcome as a function of the text.
  \<^verbatim>\<open>DualEmbeddings\<close> holds up to three providers and the configured dimension.
  The two variants of the file have the same \<^verbatim>\<open>embed\<close>; what it logs is left out.
\<close>

datatype embed_error =
    ProviderError string
  | AllProvidersFailed embed_error
  | NoProviderAvailable

type_synonym EmbeddingProvider = "string \<Rightarrow> embed_error + number list"

record DualEmbeddings =
  primary :: "EmbeddingProvider option"
  fallback :: "EmbeddingProvider option"
  default_provider :: "EmbeddingProvider option"
  dimension :: nat

text \<open>
  The vector of the fallback provider, brought to the dimension: zeros appended
  (\<^verbatim>\<open>[...vec, ...new Array(d - vec.length).fill(0)]\<close>) or \<^verbatim>\<open>vec.slice(0, d)\<close>.
\<close>

definition reconcile :: "nat \<Rightarrow> number list \<Rightarrow> number list" where
  "reconcile d vec =
     (if length vec < d then vec @ replicate (d - length vec) 0 else take d vec)"

definition embed_default :: "DualEmbeddings \<Rightarrow> string \<Rightarrow> embed_error + number list" where
  "embed_default e text =
     (case default_provider e of
        Some p \<Rightarrow> (case p text of Inr vec \<Rightarrow> Inr vec | Inl err \<Rightarrow> Inl (AllProvidersFailed err))
      | None \<Rightarrow> Inl NoProviderAvailable)"

definition embed_fallback :: "DualEmbeddings \<Rightarrow> string \<Rightarrow> embed_error + number list" where
  "embed_fallback e text =
     (case fallback e of
        Some p \<Rightarrow>
          (case p text of
             Inr vec \<Rightarrow> Inr (reconcile (dimension e) vec)
           | Inl err \<Rightarrow> embed_default e text)
      | None \<Rightarrow> embed_default e text)"

definition embed :: "DualEmbeddings \<Rightarrow> string \<Rightarrow> embed_error + number list" where
  "embed e text =
     (case primary e of
        Some p \<Rightarrow> (case p text of Inr vec \<Rightarrow> Inr vec | Inl err \<Rightarrow> embed_fallback e text)
      | None \<Rightarrow> embed_fallback e text)"

text \<open>
  A provider gives no vector for a text when it is not configured, or is configured and
  fails on the text. Every configured provider has failed when none of the three gives one.
\<close>

definition unavailable :: "EmbeddingProvider option \<Rightarrow> string \<Rightarrow> bool" where
  "unavailable p text = (case p of None \<Rightarrow> True | Some f \<Rightarrow> isl (f text))"

subsection \<open>TransformersEmbeddings.ensureInitialized\<close>

text \<open>
  The state of the local provider: whether \<open>extractor\<close> holds the loaded pipeline, and
  \<open>initPromise\<close>, null or the promise of the load in flight. A promise is an index into
  \<open>promises\<close>, the promises the method has created so far with their states; each of them
  stands for one call of \<^verbatim>\<open>pipeline(...)\<close>.

  A call of \<^verbatim>\<open>ensureInitialized\<close> returns at once when the extractor is there, hands
  out the promise in \<open>initPromise\<close> when there is one, and otherwise starts a load and
  stores its promise. \<^verbatim>\<open>pipeline\<close> is an asynchronous function, so a load settles
  after the call that started it has returned: the settlement is a step of its own.
\<close>

datatype promise_state = Pending | Fulfilled | Rejected

datatype init_outcome = Done | Awaits nat

record TransformersEmbeddings =
  extractor :: bool
  initPromise :: "nat option"
  promises :: "promise_state list"

definition new_provider :: TransformersEmbeddings where
  "new_provider = \<lparr>extractor = False, initPromise = None, promises = []\<rparr>"

definition ensureInitialized :: "TransformersEmbeddings \<Rightarrow> init_outcome \<times> TransformersEmbeddings" where
  "ensureInitialized t =
     (if extractor t then (Done, t)
      else case initPromise t of
             Some p \<Rightarrow> (Awaits p, t)
           | None \<Rightarrow>
               (Awaits (length (promises t)),
                t\<lparr>promises := promises t @ [Pending],
                  initPromise := Some (length (promises t))\<rparr>))"

text \<open>The load \<open>p\<close> succeeds: the extractor is assigned and the promise is fulfilled.\<close>

definition load_succeeds :: "nat \<Rightarrow> TransformersEmbeddings \<Rightarrow> TransformersEmbeddings" where
  "load_succeeds p t = t\<lparr>extractor := True, promises := (promises t)[p := Fulfilled]\<rparr>"

text \<open>
  The load \<open>p\<close> fails. In the variant with the \<^verbatim>\<open>try\<close> and \<^verbatim>\<open>catch\<close>
  (\<^verbatim>\<open>// Reset initPromise on failure to allow retry\<close>) the handler sets
  \<open>initPromise\<close> to null before the promise is rejected.
\<close>

definition load_fails :: "nat \<Rightarrow> TransformersEmbeddings \<Rightarrow> TransformersEmbeddings" where
  "load_fails p t = t\<lparr>initPromise := None, promises := (promises t)[p := Rejected]\<rparr>"

text \<open>
  The other variant of the file has the same method without the \<^verbatim>\<open>try\<close>: the
  promise is rejected and \<open>initPromise\<close> keeps it.
\<close>

definition load_fails_unguarded :: "nat \<Rightarrow> TransformersEmbeddings \<Rightarrow> TransformersEmbeddings" where
  "load_fails_unguarded p t = t\<lparr>promises := (promises t)[p := Rejected]\<rparr>"

text \<open>
  Runs of the provider: calls of \<^verbatim>\<open>ensureInitialized\<close> interleaved with the
  settlement of the load in flight, if there is one.
\<close>

datatype event = Call | Load_ok | Load_error

definition in_flight :: "TransformersEmbeddings \<Rightarrow> nat option" where
  "in_flight t =
     (case initPromise t of
        None \<Rightarrow> None
      | Some p \<Rightarrow> if p < length (promises t) \<and> promises t ! p = Pending then Some p else None)"

fun step :: "event \<Rightarrow> TransformersEmbeddings \<Rightarrow> TransformersEmbeddings" where
  "step Call t = snd (ensureInitialized t)"
| "step Load_ok t = (case in_flight t of None \<Rightarrow> t | Some p \<Rightarrow> load_succeeds p t)"
| "step Load_error t = (case in_flight t of None \<Rightarrow> t | Some p \<Rightarrow> load_fails p t)"

fun step_unguarded :: "event \<Rightarrow> TransformersEmbeddings \<Rightarrow> TransformersEmbeddings" where
  "step_unguarded Call t = snd (ensureInitialized t)"
| "step_unguarded Load_ok t = (case in_flight t of None \<Rightarrow> t | Some p \<Rightarrow> load_succeeds p t)"
| "step_unguarded Load_error t =
     (case in_flight t of None \<Rightarrow> t | Some p \<Rightarrow> load_fails_unguarded p t)"

definition run :: "event list \<Rightarrow> TransformersEmbeddings \<Rightarrow> TransformersEmbeddings" where
  "run evs t = fold step evs t"

definition run_unguarded :: "event list \<Rightarrow> TransformersEmbeddings \<Rightarrow> TransformersEmbeddings" where
  "run_unguarded evs t = fold step_unguarded evs t"

definition successful_loads :: "TransformersEmbeddings \<Rightarrow> nat" where
  "successful_loads t = length (filter (\<lambda>s. s = Fulfilled) (promises t))"

text \<open>
  The invariant of the runs: the number of fulfilled loads is one when the extractor is
  there and none before, and no load is in flight once it is there.
\<close>

definition load_invariant :: "TransformersEmbeddings \<Rightarrow> bool" where
  "load_invariant t =
     (successful_loads t = (if extractor t then 1 else 0)
      \<and> (extractor t \<longrightarrow> in_flight t = None))"

section \<open>Example data\<close>

text \<open>
  Two memories joined by an edge, for the concrete instances below. The embeddings are
  written with the bit patterns of the doubles 0, 1, 2, 3 and 4: against the query
  \<open>(1, 0, 0, 0)\<close> the vector \<open>(2, 4, 2, 1)\<close> scores 0.4 and \<open>(3, 4, 0, 0)\<close> scores 0.6.
\<close>

definition f0 :: number where "f0 = 0"
definition f1 :: number where "f1 = 0x3FF0000000000000"
definition f2 :: number where "f2 = 0x4000000000000000"
definition f3 :: number where "f3 = 0x4008000000000000"
definition f4 :: number where "f4 = 0x4010000000000000"
definition f5 :: number where "f5 = 0x4014000000000000"

text \<open>
  The doubles that the literals \<open>-1\<close>, \<open>0.1\<close>, \<open>0.3\<close>, \<open>0.4\<close>, \<open>0.5\<close>, \<open>0.6\<close>,
  \<open>0.7\<close>, \<open>0.8\<close>, \<open>0.9\<close> and \<open>1e200\<close> stand for, the double next above 1 and the
  second double below 1.
\<close>

definition minus_1 :: number where "minus_1 = 0xBFF0000000000000"
definition d_0_1 :: number where "d_0_1 = 0x3FB999999999999A"
definition d_0_3 :: number where "d_0_3 = 0x3FD3333333333333"
definition d_0_4 :: number where "d_0_4 = 0x3FD999999999999A"
definition d_0_5 :: number where "d_0_5 = 0x3FE0000000000000"
definition d_0_6 :: number where "d_0_6 = 0x3FE3333333333333"
definition d_0_7 :: number where "d_0_7 = 0x3FE6666666666666"
definition d_0_8 :: number where "d_0_8 = 0x3FE999999999999A"
definition d_0_9 :: number where "d_0_9 = 0x3FECCCCCCCCCCCCD"
definition d_1e200 :: number where "d_1e200 = 0x6974E718D7D7625A"
definition above_1 :: number where "above_1 = 0x3FF0000000000001"
definition below_1 :: number where "below_1 = 0x3FEFFFFFFFFFFFFE"

definition id_a :: string where "id_a = ''1b4e28ba-2fa1-41d2-883f-0016d3cca427''"
definition id_b :: string where "id_b = ''6fa459ea-ee8a-4ca4-894e-db77e160355e''"
definition id_c :: string where "id_c = ''F47AC10B-58CC-4372-A567-0E02B2C3D479''"

definition memory_a :: memory_row where
  "memory_a =
     \<lparr>row_id = id_a, row_content = ''Use tabs not spaces'',
      row_embedding = Some (encodeEmbedding [f2, f4, f2, f1]), row_created_at = 1000,
      row_source = ''vscode:chat'', row_tags = [], row_category = ''preference''\<rparr>"

definition memory_b :: memory_row where
  "memory_b =
     \<lparr>row_id = id_b, row_content = ''Store embeddings as blobs'',
      row_embedding = Some (encodeEmbedding [f3, f4, f0, f0]), row_created_at = 2000,
      row_source = ''vscode:autosave'', row_tags = [''db''], row_category = ''decision''\<rparr>"

definition edge_ab :: memory_edge where
  "edge_ab =
     \<lparr>edge_id = ''0e37df36-f698-41c1-9d17-0b6fdb6a2f31'', from_id = id_a, to_id = id_b,
      relation = ''supports'', edge_created_at = 3000\<rparr>"

definition example_db :: database where
  "example_db = \<lparr>memories = [memory_a, memory_b], memory_edges = [edge_ab]\<rparr>"

definition query_x :: "number list" where
  "query_x = [f1, f0, f0, f0]"

definition no_opts :: store_opts where
  "no_opts = \<lparr>opt_source = None, opt_tags = None, opt_category = None, dedupeThreshold = None\<rparr>"

definition pref_opts :: store_opts where
  "pref_opts = \<lparr>opt_source = Some ''vscode:chat'', opt_tags = None,
      opt_category = Some ''preference'', dedupeThreshold = None\<rparr>"

definition threshold_1 :: store_opts where
  "threshold_1 = \<lparr>opt_source = None, opt_tags = None, opt_category = None,
      dedupeThreshold = Some double_1\<rparr>"

definition memory_c :: memory_row where
  "memory_c =
     \<lparr>row_id = id_c, row_content = ''Prefer composition'',
      row_embedding = Some (encodeEmbedding [d_0_5, d_0_3, d_0_9]), row_created_at = 3000,
      row_source = ''vscode:chat'', row_tags = [], row_category = ''other''\<rparr>"

definition memory_d :: memory_row where
  "memory_d =
     \<lparr>row_id = id_c, row_content = ''Prefer composition'',
      row_embedding = Some (encodeEmbedding [d_1e200, d_1e200]), row_created_at = 3000,
      row_source = ''vscode:chat'', row_tags = [], row_category = ''other''\<rparr>"

definition empty_db :: database where
  "empty_db = \<lparr>memories = [], memory_edges = []\<rparr>"

text \<open>Providers for the concrete instances of \<^verbatim>\<open>embed\<close>.\<close>

definition rejecting :: EmbeddingProvider where
  "rejecting text = Inl (ProviderError ''429 rate limit'')"

definition two_dim :: EmbeddingProvider where
  "two_dim text = Inr [f1, f2]"

definition five_dim :: EmbeddingProvider where
  "five_dim text = Inr [f1, f2, f3, f4, f1]"

section \<open>The embedding codec\<close>

lemma length_number_bytes: "length (number_bytes w) = 8"
  by (simp add: number_bytes_def)

lemma bytes_number_bytes: "bytes_number (number_bytes w) = w"
proof (rule bit_word_eqI)
  fix n assume n: "n < LENGTH(64)"
  then have d: "n div 8 < 8" by simp
  have e: "8 * (n div 8) + n mod 8 = n" by simp
  have "bit (bytes_number (number_bytes w)) n \<longleftrightarrow>
        bit (horner_sum uint (2 ^ LENGTH(8)) (number_bytes w)) n"
    using n by (simp add: bytes_number_def bit_word_of_int_iff)
  also have "\<dots> \<longleftrightarrow> bit (number_bytes w ! (n div 8)) (n mod 8)"
    using d bit_horner_sum_uint_exp_iff [of "number_bytes w" n]
    by (simp add: length_number_bytes)
  also have "\<dots> \<longleftrightarrow> bit w n"
    using d e by (simp add: number_bytes_def bit_ucast_iff bit_drop_bit_eq)
  finally show "bit (bytes_number (number_bytes w)) n \<longleftrightarrow> bit w n" .
qed

lemma length_encodeEmbedding: "length (encodeEmbedding vec) = 8 * length vec"
  by (induction vec) (simp_all add: encodeEmbedding_def length_number_bytes)

lemma float64_view_encode:
  "float64_view (length vec) (encodeEmbedding vec) = vec"
proof (induction vec)
  case Nil
  show ?case by simp
next
  case (Cons w ws)
  have "encodeEmbedding (w # ws) = number_bytes w @ encodeEmbedding ws"
    by (simp add: encodeEmbedding_def)
  with Cons show ?case
    by (simp add: length_number_bytes bytes_number_bytes)
qed

lemma decode_encode: "decodeEmbedding (encodeEmbedding vec) = Inr vec"
  by (simp add: decodeEmbedding_def length_encodeEmbedding float64_view_encode)

text \<open>
  Claim C9. Decoding an encoded embedding gives back the vector it was made from, every
  element with all its 64 bits, and the decoder does not fail on it; the blob has eight
  bytes for every element.
\<close>

theorem decodeEmbedding_encodeEmbedding:
  "decodeEmbedding (encodeEmbedding vec) = Inr vec
   \<and> length (encodeEmbedding vec) = 8 * length vec"
  by (simp add: decode_encode length_encodeEmbedding)

section \<open>Properties of the arithmetic\<close>

lemma pack_fields:
  assumes "e < 2048" and "m < 2 ^ 52"
  shows "exponent (pack s e m) = e" and "fraction (pack s e m) = m" and "sign_of (pack s e m) = s"
proof -
  define N :: nat where "N = (if s then 2 ^ 63 else 0) + e * 2 ^ 52 + m"
  have em: "e * 2 ^ 52 + m < 2 ^ 63"
  proof -
    have "e * 2 ^ 52 \<le> 2047 * 2 ^ 52" using assms(1) by simp
    with assms(2) show ?thesis by simp
  qed
  then have N: "N < 2 ^ 64" by (simp add: N_def)
  have Nq: "N = ((if s then 2 ^ 11 else 0) + e) * 2 ^ 52 + m"
    by (simp add: N_def algebra_simps)
  have Ns: "N = (if s then 1 else 0) * 2 ^ 63 + (e * 2 ^ 52 + m)"
    by (simp add: N_def)
  have "unat (pack s e m) = N mod 2 ^ LENGTH(64)"
    unfolding pack_def N_def by (rule unat_of_nat)
  with N have u: "unat (pack s e m) = N" by simp
  have "fraction (pack s e m) = take_bit 52 (unat (pack s e m))"
    by (simp only: fraction_def unsigned_take_bit_eq)
  also have "\<dots> = N mod 2 ^ 52"
    by (simp only: u take_bit_eq_mod)
  also have "\<dots> = m mod 2 ^ 52" unfolding Nq by (rule mod_mult_self3)
  also have "\<dots> = m" using assms(2) by simp
  finally show "fraction (pack s e m) = m" .
  have "exponent (pack s e m) = take_bit 11 (drop_bit 52 (take_bit LENGTH(64) (unat (pack s e m))))"
    by (simp only: exponent_def unsigned_take_bit_eq unsigned_drop_bit_eq)
  also have "\<dots> = (N mod 2 ^ LENGTH(64) div 2 ^ 52) mod 2 ^ 11"
    by (simp only: u take_bit_eq_mod drop_bit_eq_div)
  also have "N mod 2 ^ LENGTH(64) = N" using N by simp
  also have "N div 2 ^ 52 = (if s then 2 ^ 11 else 0) + e + m div 2 ^ 52"
    unfolding Nq by (rule div_mult_self3) simp
  also have "m div 2 ^ 52 = 0" using assms(2) by simp
  also have "(if s then 2 ^ 11 else 0) + e + 0 = (if s then 2 ^ 11 else 0) + e" by simp
  also have "\<dots> mod 2 ^ 11 = e" using assms(1) by simp
  finally show "exponent (pack s e m) = e" .
  have "sign_of (pack s e m) \<longleftrightarrow> bit (unat (pack s e m)) 63"
    by (simp add: sign_of_def bit_unsigned_iff)
  also have "\<dots> \<longleftrightarrow> odd (N div 2 ^ 63)"
    by (simp only: u bit_iff_odd)
  also have "N div 2 ^ 63 = (if s then 1 else 0) + (e * 2 ^ 52 + m) div 2 ^ 63"
    unfolding Ns by (rule div_mult_self3) simp
  also have "(e * 2 ^ 52 + m) div 2 ^ 63 = 0" using em by simp
  also have "(if s then 1 else 0) + 0 = (if s then 1 else (0::nat))" by simp
  finally show "sign_of (pack s e m) = s" by simp
qed

lemma value_of_pack:
  assumes "e < 2047" and "m < 2 ^ 52"
  shows "value_of (pack s e m) =
     Finite ((if s then - 1 else 1) *
       (if e = 0 then real m * 2 powi (- 1074) else (2 ^ 52 + real m) * 2 powi (int e - 1075)))"
  using assms by (simp add: value_of_def pack_fields)

lemma value_of_infinity [simp]: "value_of (infinity s) = Infinite s"
  by (simp add: value_of_def infinity_def pack_fields)

lemma value_of_zero [simp]: "value_of (zero s) = Finite 0"
  by (simp add: zero_def value_of_pack)

lemma value_of_the_nan [simp]: "value_of the_nan = NaN"
  by (simp add: value_of_def the_nan_def pack_fields)

lemma sign_of_zero [simp]: "sign_of (zero s) = s"
  by (simp add: zero_def pack_fields)

lemma two_powr_int: "(2::real) powr of_int k = 2 powi k"
  by (rule powr_real_of_int') simp_all

lemma floor_log2_bounds:
  assumes "0 < a"
  shows "2 powi \<lfloor>log 2 a\<rfloor> \<le> a" and "a < 2 powi (\<lfloor>log 2 a\<rfloor> + 1)"
proof -
  have "of_int \<lfloor>log 2 a\<rfloor> \<le> log 2 a" by simp
  then have "2 powr of_int \<lfloor>log 2 a\<rfloor> \<le> a"
    using assms le_log_iff [of 2 a "of_int \<lfloor>log 2 a\<rfloor>"] by simp
  then show "2 powi \<lfloor>log 2 a\<rfloor> \<le> a"
    by (simp only: two_powr_int)
  have "\<not> of_int (\<lfloor>log 2 a\<rfloor> + 1) \<le> log 2 a"
    by (simp add: not_le)
  then have "\<not> 2 powr of_int (\<lfloor>log 2 a\<rfloor> + 1) \<le> a"
    using assms le_log_iff [of 2 a "of_int (\<lfloor>log 2 a\<rfloor> + 1)"] by simp
  then show "a < 2 powi (\<lfloor>log 2 a\<rfloor> + 1)"
    by (simp only: two_powr_int not_le)
qed

lemma floor_log2_eq:
  assumes "2 powi k \<le> a" and "a < 2 powi (k + 1)"
  shows "\<lfloor>log 2 a\<rfloor> = k"
proof -
  have "(0::real) < 2 powi k" by simp
  with assms(1) have pos: "0 < a" by linarith
  have "2 powr of_int k \<le> a" using assms(1) by (simp only: two_powr_int)
  then have l: "of_int k \<le> log 2 a"
    using pos le_log_iff [of 2 a "of_int k"] by simp
  have "\<not> 2 powr of_int (k + 1) \<le> a" using assms(2) by (simp only: two_powr_int not_le)
  then have "\<not> of_int (k + 1) \<le> log 2 a"
    using pos le_log_iff [of 2 a "of_int (k + 1)"] by simp
  then have u: "log 2 a < of_int k + 1" by simp
  from l u show ?thesis by (simp add: floor_eq_iff)
qed

lemma round_half_even_ge: "of_int c \<le> r \<Longrightarrow> c \<le> round_half_even r"
proof -
  assume "of_int c \<le> r"
  then have "c \<le> \<lfloor>r\<rfloor>" by (simp add: le_floor_iff)
  then show ?thesis by (simp add: round_half_even_def Let_def)
qed

lemma round_half_even_upper: "round_half_even r \<le> \<lfloor>r\<rfloor> + 1"
  by (simp add: round_half_even_def Let_def)

lemma round_half_even_le: "r \<le> of_int c \<Longrightarrow> round_half_even r \<le> c"
proof -
  assume a: "r \<le> of_int c"
  have f: "\<lfloor>r\<rfloor> \<le> c" using floor_mono [OF a] by simp
  show ?thesis
  proof (cases "\<lfloor>r\<rfloor> = c")
    case True
    have "of_int c \<le> r" unfolding True [symmetric] by (rule of_int_floor_le)
    with a have "r = of_int c" by (rule order.antisym)
    then show ?thesis by (simp add: round_half_even_def)
  next
    case False
    with f have "\<lfloor>r\<rfloor> + 1 \<le> c" by simp
    with round_half_even_upper [of r] show ?thesis by (rule order_trans)
  qed
qed

lemma round_half_even_eqI:
  "of_int n - 1 / 2 < r \<Longrightarrow> r < of_int n + 1 / 2 \<Longrightarrow> round_half_even r = n"
proof -
  assume a: "of_int n - 1 / 2 < r" and b: "r < of_int n + 1 / 2"
  have "n - 1 \<le> \<lfloor>r\<rfloor>" using a by (simp add: le_floor_iff) 
  moreover have "\<lfloor>r\<rfloor> \<le> n" using b by (simp add: floor_le_iff)
  ultimately consider "\<lfloor>r\<rfloor> = n" | "\<lfloor>r\<rfloor> = n - 1" by linarith
  then show ?thesis
  proof cases
    case 1
    with b show ?thesis by (simp add: round_half_even_def)
  next
    case 2
    with a show ?thesis by (simp add: round_half_even_def)
  qed
qed

lemma round_half_even_of_int [simp]: "round_half_even (of_int n) = n"
  by (simp add: round_half_even_def)

lemma fl_cases:
  assumes "x \<noteq> 0"
  shows "fl z x = infinity (x < 0)
    \<or> (\<exists>e m. fl z x = pack (x < 0) e m \<and> e < 2047 \<and> m < 2 ^ 52
          \<and> (2 powi (- 1074) \<le> \<bar>x\<bar> \<longrightarrow> e \<noteq> 0 \<or> m \<noteq> 0))"
proof -
  define a where "a = \<bar>x\<bar>"
  define L where "L = \<lfloor>log 2 a\<rfloor>"
  define k where "k = max L (- 1022)"
  define r where "r = a / 2 powi (k - 52)"
  define n where "n = round_half_even r"
  define k' where "k' = (if n = 2 ^ 53 then k + 1 else k)"
  define n' where "n' = (if n = 2 ^ 53 then 2 ^ 52 else n)"
  have pos: "0 < a" using assms by (simp add: a_def)
  have lo: "2 powi L \<le> a" and hi: "a < 2 powi (L + 1)"
    unfolding L_def using floor_log2_bounds [OF pos] by simp_all
  have kL: "L \<le> k" and k_min: "- 1022 \<le> k" by (simp_all add: k_def)
  have "(2::real) powi (L + 1) \<le> 2 powi (k + 1)"
    using kL by (intro power_int_increasing) simp_all
  with hi have hi': "a < 2 powi (k + 1)" by simp
  have q: "(0::real) < 2 powi (k - 52)" by simp
  have split: "(2::real) powi (k + 1) = 2 powi (k - 52) * 2 ^ 53"
    using power_int_add [of "2::real" "k - 52" 53] by (simp add: add.commute)
  have r_hi: "r < 2 ^ 53"
    using hi' q unfolding r_def split by (simp add: divide_less_eq mult.commute)
  have r_lo: "0 \<le> r" using pos by (simp add: r_def)
  have n_hi: "n \<le> 2 ^ 53"
    unfolding n_def using r_hi by (intro round_half_even_le) simp
  have n_lo: "0 \<le> n"
    unfolding n_def using r_lo by (intro round_half_even_ge) simp
  have n'_hi: "n' < 2 ^ 53" and n'_lo: "0 \<le> n'"
    using n_hi n_lo by (auto simp: n'_def)
  have n'_pos: "1 \<le> n'" if small: "2 powi (- 1074) \<le> a"
  proof -
    have "2 powi (k - 52) \<le> a"
    proof (cases "k = L")
      case True
      have "(2::real) powi (k - 52) \<le> 2 powi k"
        by (intro power_int_increasing) simp_all
      with lo True show ?thesis by simp
    next
      case False
      then have "k = - 1022" by (auto simp: k_def max_def split: if_splits)
      with small show ?thesis by simp
    qed
    then have "1 \<le> r" using q by (simp add: r_def)
    then have "1 \<le> n" unfolding n_def by (intro round_half_even_ge) simp
    then show ?thesis by (auto simp: n'_def)
  qed
  have k'_min: "- 1022 \<le> k'" using k_min by (simp add: k'_def)
  have unfold: "fl z x =
      (if k' > 1023 then infinity (x < 0)
       else if n' < 2 ^ 52 then pack (x < 0) 0 (nat n')
       else pack (x < 0) (nat (k' + 1023)) (nat (n' - 2 ^ 52)))"
    using assms
    unfolding k'_def n'_def n_def r_def k_def L_def a_def fl_def Let_def
    by (simp only: if_False)
  show ?thesis
  proof (cases "k' > 1023")
    case True
    with unfold show ?thesis by simp
  next
    case big: False
    show ?thesis
    proof (cases "n' < 2 ^ 52")
      case True
      have "fl z x = pack (x < 0) 0 (nat n')" using unfold big True by simp
      moreover have "nat n' < 2 ^ 52" using True n'_lo by simp
      moreover have "2 powi (- 1074) \<le> \<bar>x\<bar> \<longrightarrow> nat n' \<noteq> 0"
        using n'_pos by (auto simp: a_def)
      ultimately show ?thesis by (intro disjI2 exI [of _ 0] exI [of _ "nat n'"]) simp
    next
      case False
      have "fl z x = pack (x < 0) (nat (k' + 1023)) (nat (n' - 2 ^ 52))"
        using unfold big False by simp
      moreover have "nat (k' + 1023) < 2047" "nat (k' + 1023) \<noteq> 0"
        using big k'_min by simp_all
      moreover have "nat (n' - 2 ^ 52) < 2 ^ 52" using n'_hi False by simp
      ultimately show ?thesis
        by (intro disjI2 exI [of _ "nat (k' + 1023)"] exI [of _ "nat (n' - 2 ^ 52)"]) simp
    qed
  qed
qed

lemma fl_0 [simp]: "fl z 0 = zero z"
  by (simp add: fl_def)

lemma value_of_fl:
  assumes "x \<noteq> 0"
  shows "value_of (fl z x) = Infinite (x < 0)
    \<or> (\<exists>v. value_of (fl z x) = Finite v \<and> (x < 0 \<longrightarrow> v \<le> 0) \<and> (0 < x \<longrightarrow> 0 \<le> v)
          \<and> (2 powi (- 1074) \<le> \<bar>x\<bar> \<longrightarrow> v \<noteq> 0))"
proof -
  from fl_cases [OF assms, of z] show ?thesis
  proof
    assume "fl z x = infinity (x < 0)"
    then show ?thesis by simp
  next
    assume "\<exists>e m. fl z x = pack (x < 0) e m \<and> e < 2047 \<and> m < 2 ^ 52
          \<and> (2 powi (- 1074) \<le> \<bar>x\<bar> \<longrightarrow> e \<noteq> 0 \<or> m \<noteq> 0)"
    then obtain e m where p: "fl z x = pack (x < 0) e m" "e < 2047" "m < 2 ^ 52"
      and nz: "2 powi (- 1074) \<le> \<bar>x\<bar> \<longrightarrow> e \<noteq> 0 \<or> m \<noteq> 0" by blast
    define mag :: real where
      "mag = (if e = 0 then real m * 2 powi (- 1074) else (2 ^ 52 + real m) * 2 powi (int e - 1075))"
    have v: "value_of (fl z x) = Finite ((if x < 0 then - 1 else 1) * mag)"
      unfolding p(1) mag_def using p(2,3) by (rule value_of_pack)
    have mag0: "0 \<le> mag" by (simp add: mag_def)
    have magnz: "mag \<noteq> 0" if "e \<noteq> 0 \<or> m \<noteq> 0"
    proof (cases "e = 0")
      case True
      with that show ?thesis by (simp add: mag_def)
    next
      case False
      have "(0::real) < 2 ^ 52 + real m" by (simp add: add_pos_nonneg)
      then show ?thesis using False by (simp add: mag_def)
    qed
    show ?thesis
      using v mag0 magnz nz assms by (intro disjI2 exI [of _ "(if x < 0 then - 1 else 1) * mag"]) auto
  qed
qed

lemma finite_multiple:
  assumes "value_of w = Finite v"
  shows "\<exists>N::int. v = of_int N * 2 powi (- 1074)"
proof -
  define s :: int where "s = (if sign_of w then - 1 else 1)"
  show ?thesis
  proof (cases "exponent w = 0")
    case True
    with assms have "v = of_int (s * int (fraction w)) * 2 powi (- 1074)"
      by (auto simp: value_of_def s_def split: if_splits)
    then show ?thesis ..
  next
    case False
    then have e: "1 \<le> exponent w" by simp
    have "(2::real) powi (int (exponent w) - 1075) = 2 powi (int (exponent w - 1)) * 2 powi (- 1074)"
      using e power_int_add [of "2::real" "int (exponent w - 1)" "- 1074"] by (simp add: of_nat_diff)
    also have "(2::real) powi (int (exponent w - 1)) = of_int (2 ^ (exponent w - 1))"
      by simp
    finally have p: "(2::real) powi (int (exponent w) - 1075)
        = of_int (2 ^ (exponent w - 1)) * 2 powi (- 1074)" .
    from assms False have "v = of_int s * ((2 ^ 52 + real (fraction w)) * 2 powi (int (exponent w) - 1075))"
      by (auto simp: value_of_def s_def split: if_splits)
    also have "\<dots> = of_int (s * (2 ^ 52 + int (fraction w)) * 2 ^ (exponent w - 1)) * 2 powi (- 1074)"
      unfolding p by simp
    finally show ?thesis ..
  qed
qed

lemma finite_difference:
  assumes "value_of a = Finite x" and "value_of b = Finite y" and "x \<noteq> y"
  shows "2 powi (- 1074) \<le> \<bar>x - y\<bar>"
proof -
  obtain M N :: int where x: "x = of_int M * 2 powi (- 1074)" and y: "y = of_int N * 2 powi (- 1074)"
    using finite_multiple [OF assms(1)] finite_multiple [OF assms(2)] by blast
  have d: "x - y = of_int (M - N) * 2 powi (- 1074)"
    by (simp add: x y algebra_simps)
  have "M \<noteq> N" using assms(3) x y by auto
  then have "1 \<le> \<bar>M - N\<bar>" by simp
  then have "(1::real) \<le> \<bar>of_int (M - N)\<bar>" by (metis of_int_1_le_iff of_int_abs)
  then have "1 * 2 powi (- 1074) \<le> \<bar>of_int (M - N)\<bar> * (2::real) powi (- 1074)"
    by (intro mult_right_mono) simp_all
  then show ?thesis unfolding d by (simp add: abs_mult)
qed

lemma fneg_fields:
  "exponent (fneg w) = exponent w" "fraction (fneg w) = fraction w" "sign_of (fneg w) = (\<not> sign_of w)"
proof -
  have "take_bit 11 (drop_bit 52 (fneg w)) = take_bit 11 (drop_bit 52 w)"
    by (rule bit_word_eqI) (auto simp: fneg_def bit_simps)
  then show "exponent (fneg w) = exponent w" by (simp add: exponent_def)
  have "take_bit 52 (fneg w) = take_bit 52 w"
    by (rule bit_word_eqI) (auto simp: fneg_def bit_simps)
  then show "fraction (fneg w) = fraction w" by (simp add: fraction_def)
  show "sign_of (fneg w) = (\<not> sign_of w)"
    by (simp add: sign_of_def fneg_def bit_simps)
qed

lemma value_of_fneg:
  "value_of (fneg w) =
     (case value_of w of Finite v \<Rightarrow> Finite (- v) | Infinite s \<Rightarrow> Infinite (\<not> s) | NaN \<Rightarrow> NaN)"
  by (simp add: value_of_def fneg_fields)

lemma fsub_positive:
  assumes "\<not> is_nan a" and "\<not> is_nan b"
  shows "fpositive (fsub b a) \<longleftrightarrow> fgt b a"
proof (cases "value_of a")
  case NaN
  with assms show ?thesis by (simp add: is_nan_def)
next
  case ia: (Infinite s)
  show ?thesis
    using assms ia
    by (cases "value_of b")
      (auto simp: fsub_def fadd_def fpositive_def fgt_def value_of_fneg is_nan_def)
next
  case fa: (Finite x)
  show ?thesis
  proof (cases "value_of b")
    case NaN
    with assms show ?thesis by (simp add: is_nan_def)
  next
    case (Infinite t)
    with fa show ?thesis
      by (auto simp: fsub_def fadd_def fpositive_def fgt_def value_of_fneg)
  next
    case fb: (Finite y)
    have sub: "fsub b a = fl (sign_of b \<and> sign_of (fneg a)) (y - x)"
      using fa fb by (simp add: fsub_def fadd_def value_of_fneg)
    show ?thesis
    proof (cases "y = x")
      case True
      then show ?thesis using fa fb by (simp add: sub fpositive_def fgt_def)
    next
      case False
      then have nz: "y - x \<noteq> 0" by simp
      have big: "2 powi (- 1074) \<le> \<bar>y - x\<bar>"
        using finite_difference [OF fb fa False] .
      from value_of_fl [OF nz, of "sign_of b \<and> sign_of (fneg a)"] big
      have "fpositive (fl (sign_of b \<and> sign_of (fneg a)) (y - x)) \<longleftrightarrow> 0 < y - x"
        by (auto simp: fpositive_def)
      then show ?thesis using fa fb by (simp add: sub fgt_def)
    qed
  qed
qed

lemma fl_eval:
  assumes nz: "x \<noteq> 0"
    and lo: "2 powi k \<le> \<bar>x\<bar>" and hi: "\<bar>x\<bar> < 2 powi (k + 1)"
    and k: "- 1022 \<le> k" "k \<le> 1023"
    and n: "of_int n - 1 / 2 < \<bar>x\<bar> / 2 powi (k - 52)" "\<bar>x\<bar> / 2 powi (k - 52) < of_int n + 1 / 2"
    and range: "2 ^ 52 \<le> n" "n < 2 ^ 53"
  shows "fl z x = pack (x < 0) (nat (k + 1023)) (nat (n - 2 ^ 52))"
proof -
  have L: "\<lfloor>log 2 \<bar>x\<bar>\<rfloor> = k" using lo hi by (rule floor_log2_eq)
  have m: "max k (- 1022) = k" using k(1) by simp
  have r: "round_half_even (\<bar>x\<bar> / 2 powi (k - 52)) = n" using n by (rule round_half_even_eqI)
  show ?thesis
    using nz k(2) range by (simp add: fl_def Let_def L m r)
qed

lemma fl_eval_round:
  assumes nz: "x \<noteq> 0"
    and lo: "2 powi k \<le> \<bar>x\<bar>" and hi: "\<bar>x\<bar> < 2 powi (k + 1)"
    and k: "- 1022 \<le> k" "k \<le> 1023"
    and r: "round_half_even (\<bar>x\<bar> / 2 powi (k - 52)) = n"
    and range: "2 ^ 52 \<le> n" "n < 2 ^ 53"
  shows "fl z x = pack (x < 0) (nat (k + 1023)) (nat (n - 2 ^ 52))"
proof -
  have L: "\<lfloor>log 2 \<bar>x\<bar>\<rfloor> = k" using lo hi by (rule floor_log2_eq)
  have m: "max k (- 1022) = k" using k(1) by simp
  show ?thesis
    using nz k(2) range by (simp add: fl_def Let_def L m r)
qed

lemma fl_overflow:
  assumes "2 powi 1024 \<le> \<bar>x\<bar>"
  shows "fl z x = infinity (x < 0)"
proof -
  have "(0::real) < 2 powi 1024" by simp
  with assms have pos: "0 < \<bar>x\<bar>" by linarith
  then have nz: "x \<noteq> 0" by simp
  have "1024 \<le> \<lfloor>log 2 \<bar>x\<bar>\<rfloor>"
  proof (rule ccontr)
    assume "\<not> 1024 \<le> \<lfloor>log 2 \<bar>x\<bar>\<rfloor>"
    then have "\<lfloor>log 2 \<bar>x\<bar>\<rfloor> + 1 \<le> 1024" by simp
    then have "(2::real) powi (\<lfloor>log 2 \<bar>x\<bar>\<rfloor> + 1) \<le> 2 powi 1024"
      by (intro power_int_increasing) simp_all
    with floor_log2_bounds(2) [OF pos] assms show False by linarith
  qed
  then show ?thesis
    using nz by (simp add: fl_def Let_def)
qed

lemma fl_sqrt_eval:
  assumes y: "0 < y"
    and lo: "(2 powi k)\<^sup>2 \<le> y" and hi: "y < (2 powi (k + 1))\<^sup>2"
    and k: "- 1022 \<le> k" "k \<le> 1023"
    and n: "((of_int n - 1 / 2) * 2 powi (k - 52))\<^sup>2 < y" "y < ((of_int n + 1 / 2) * 2 powi (k - 52))\<^sup>2"
    and range: "2 ^ 52 \<le> n" "n < 2 ^ 53"
  shows "fl z (sqrt y) = pack False (nat (k + 1023)) (nat (n - 2 ^ 52))"
proof -
  have q: "(0::real) < 2 powi (k - 52)" by simp
  have s: "0 < sqrt y" using y by simp
  have a: "\<bar>sqrt y\<bar> = sqrt y" using s by simp
  have n0: "(0::real) \<le> of_int n - 1 / 2"
  proof -
    have "(1::real) \<le> of_int n" using range(1) by (smt (verit) of_int_1_le_iff zero_less_power)
    then show ?thesis by simp
  qed
  have lo': "2 powi k \<le> sqrt y"
    using lo by (intro real_le_rsqrt)
  have hi': "sqrt y < 2 powi (k + 1)"
    using hi by (intro real_less_lsqrt) simp_all
  have "(of_int n - 1 / 2) * 2 powi (k - 52) < sqrt y"
    using n(1) n0 q by (intro real_less_rsqrt)
  then have n1: "of_int n - 1 / 2 < sqrt y / 2 powi (k - 52)"
    using q by (simp add: pos_less_divide_eq)
  have "sqrt y < (of_int n + 1 / 2) * 2 powi (k - 52)"
    using n(2) n0 q by (intro real_less_lsqrt) (simp_all add: mult_nonneg_nonneg)
  then have n2: "sqrt y / 2 powi (k - 52) < of_int n + 1 / 2"
    using q by (simp add: pos_divide_less_eq)
  have "fl z (sqrt y) = pack (sqrt y < 0) (nat (k + 1023)) (nat (n - 2 ^ 52))"
    using s lo' hi' k n1 n2 range by (intro fl_eval) (simp_all add: a)
  then show ?thesis using s by simp
qed

subsection \<open>Multiplication and the comparisons\<close>

lemma value_le_NaN [simp]: "value_le u NaN = False"
  by (cases u) simp_all

lemma value_less_NaN [simp]: "value_less u NaN = False"
  by (cases u) simp_all

lemma value_of_double_1: "value_of double_1 = Finite 1"
  by (simp add: double_1_def value_of_def exponent_def fraction_def sign_of_def)



lemma fge_not_nan: "fge a b \<Longrightarrow> \<not> is_nan a \<and> \<not> is_nan b"
  by (cases "value_of a"; cases "value_of b") (auto simp: fge_def is_nan_def)

lemma fge_refl: "\<not> is_nan a \<Longrightarrow> fge a a"
  by (cases "value_of a") (auto simp: fge_def is_nan_def)

lemma fge_trans: "fge a b \<Longrightarrow> fge b c \<Longrightarrow> fge a c"
  by (cases "value_of a"; cases "value_of b"; cases "value_of c") (auto simp: fge_def)

lemma fgt_fge: "fgt a b \<Longrightarrow> fge a b"
  by (cases "value_of a"; cases "value_of b") (auto simp: fge_def fgt_def)

lemma not_fgt_fge: "\<not> is_nan a \<Longrightarrow> \<not> is_nan b \<Longrightarrow> \<not> fgt b a \<Longrightarrow> fge a b"
  by (cases "value_of a"; cases "value_of b") (auto simp: fge_def fgt_def is_nan_def)

lemma fge_not_fgt: "fge a b \<Longrightarrow> \<not> fgt b a"
  by (cases "value_of a"; cases "value_of b") (auto simp: fge_def fgt_def)

subsection \<open>Sorting and slicing\<close>

lemma set_insert_by [simp]: "set (insert_by c x ys) = insert x (set ys)"
  by (induction ys) auto

lemma length_insert_by [simp]: "length (insert_by c x ys) = Suc (length ys)"
  by (induction ys) auto

lemma set_js_sort [simp]: "set (js_sort c xs) = set xs"
  by (induction xs) (simp_all add: js_sort_def)

lemma length_js_sort [simp]: "length (js_sort c xs) = length xs"
  by (induction xs) (simp_all add: js_sort_def)

lemma js_sort_Cons: "js_sort c (x # xs) = insert_by c x (js_sort c xs)"
  by (simp add: js_sort_def)

lemma js_sort_Nil [simp]: "js_sort c [] = []"
  by (simp add: js_sort_def)

lemma slice_0_take: "\<exists>n. slice_0 xs e = take n xs"
proof (cases "value_of e")
  case (Finite x)
  then show ?thesis by (auto simp: slice_0_def Let_def)
next
  case (Infinite s)
  have "xs = take (length xs) xs" "[] = take 0 xs" by simp_all
  with Infinite show ?thesis by (auto simp: slice_0_def simp del: take_all take_0)
next
  case NaN
  have "[] = take 0 xs" by simp
  with NaN show ?thesis by (auto simp: slice_0_def simp del: take_0)
qed

lemma set_slice_0_subset: "set (slice_0 xs e) \<subseteq> set xs"
proof -
  obtain n where "slice_0 xs e = take n xs" using slice_0_take by blast
  then show ?thesis by (simp add: set_take_subset)
qed

lemma length_slice_0: "fge limit double_0 \<Longrightarrow> at_most (length (slice_0 xs limit)) limit"
proof (cases "value_of limit")
  case (Finite x)
  assume "fge limit double_0"
  with Finite have x: "0 \<le> x"
    by (simp add: fge_def double_0_def value_of_def exponent_def fraction_def sign_of_def)
  define n where "n = \<lfloor>x\<rfloor>"
  have f: "0 \<le> n" using x by (simp add: n_def)
  have "length (take (nat (min n (int (length xs)))) xs) \<le> nat n"
    by (auto simp: min_def)
  then have "real (length (take (nat (min n (int (length xs)))) xs)) \<le> real (nat n)"
    by (simp only: of_nat_le_iff)
  also have "real (nat n) = real_of_int n" using f by simp
  also have "\<dots> \<le> x" by (simp add: n_def)
  finally have "real (length (take (nat (min n (int (length xs)))) xs)) \<le> x" .
  moreover have "slice_0 xs limit = take (nat (min n (int (length xs)))) xs"
    using Finite x f by (simp add: slice_0_def Let_def n_def)
  ultimately show ?thesis
    using Finite by (simp add: at_most_def)
next
  case (Infinite s)
  assume "fge limit double_0"
  with Infinite have "\<not> s"
    by (simp add: fge_def double_0_def value_of_def exponent_def fraction_def sign_of_def)
  with Infinite show ?thesis by (simp add: at_most_def)
next
  case NaN
  assume "fge limit double_0"
  with NaN show ?thesis by (simp add: fge_def)
qed

lemma slice_0_all: "at_most (length xs) limit \<Longrightarrow> slice_0 xs limit = xs"
proof (cases "value_of limit")
  case (Finite x)
  assume "at_most (length xs) limit"
  with Finite have x: "real (length xs) \<le> x" by (simp add: at_most_def)
  then have "0 \<le> x" by linarith
  moreover have "int (length xs) \<le> \<lfloor>x\<rfloor>" using x by (simp add: le_floor_iff)
  ultimately show ?thesis using Finite by (simp add: slice_0_def Let_def min_def)
next
  case (Infinite s)
  assume "at_most (length xs) limit"
  with Infinite show ?thesis by (simp add: at_most_def slice_0_def)
next
  case NaN
  assume "at_most (length xs) limit"
  with NaN show ?thesis by (simp add: at_most_def)
qed

lemma slice_0_one: "slice_0 xs double_1 = take (Suc 0) xs"
  by (cases xs) (simp_all add: slice_0_def value_of_double_1)

section \<open>The arithmetic on the example data\<close>

text \<open>
  The values of the bit patterns that occur in the examples, and the rounded results of the
  operations that the examples perform on them, each from the rounding of its exact result.
\<close>

lemma special_patterns:
  "zero False = 0" "zero True = 0x8000000000000000"
  "infinity False = 0x7FF0000000000000" "infinity True = 0xFFF0000000000000"
  "the_nan = 0x7FF8000000000000"
  by (simp_all add: zero_def infinity_def the_nan_def pack_def)

lemma pattern_values:
  "value_of 0x3FF0000000000000 = Finite (1)"
  "value_of 0x4000000000000000 = Finite (2)"
  "value_of 0 = Finite (0)"
  "value_of 0x4010000000000000 = Finite (4)"
  "value_of 0x4030000000000000 = Finite (16)"
  "value_of 0x4034000000000000 = Finite (20)"
  "value_of 0x4038000000000000 = Finite (24)"
  "value_of 0x4039000000000000 = Finite (25)"
  "value_of 0x4014000000000000 = Finite (5)"
  "value_of 0x4008000000000000 = Finite (3)"
  "value_of 0x4022000000000000 = Finite (9)"
  "value_of 0x4018000000000000 = Finite (6)"
  "value_of 0x4036000000000000 = Finite (22)"
  "value_of 0xBFF0000000000000 = Finite (- 1)"
  "value_of 0x3FB999999999999A = Finite (3602879701896397 / 36028797018963968)"
  "value_of 0x3F847AE147AE147C = Finite (1441151880758559 / 144115188075855872)"
  "value_of 0x3FE6666666666666 = Finite (3152519739159347 / 4503599627370496)"
  "value_of 0x3FDF5C28F5C28F5B = Finite (8827055269646171 / 18014398509481984)"
  "value_of 0x3FDFFFFFFFFFFFFF = Finite (9007199254740991 / 18014398509481984)"
  "value_of 0x3FE6A09E667F3BCC = Finite (1592262918131443 / 2251799813685248)"
  "value_of 0x3FDFFFFFFFFFFFFE = Finite (4503599627370495 / 9007199254740992)"
  "value_of 0x6974E718D7D7625A = Finite (99999999999999996973312221251036165947450327545502362648241750950346848435554075534196338404706251868027512415973882408182135734368278484639385041047239877871023591066789981811181813306167128854888448)"
  "value_of 0x7FF0000000000000 = Infinite False"
  "value_of 0x7FF8000000000000 = NaN"
  "value_of 0x3FE0000000000000 = Finite (1 / 2)"
  "value_of 0x3FD0000000000000 = Finite (1 / 4)"
  "value_of 0x3FD3333333333333 = Finite (5404319552844595 / 18014398509481984)"
  "value_of 0x3FB70A3D70A3D70A = Finite (3242591731706757 / 36028797018963968)"
  "value_of 0x3FECCCCCCCCCCCCD = Finite (8106479329266893 / 9007199254740992)"
  "value_of 0x3FD5C28F5C28F5C2 = Finite (3062447746611937 / 9007199254740992)"
  "value_of 0x3FE9EB851EB851EC = Finite (1823957849085051 / 2251799813685248)"
  "value_of 0x3FF2666666666666 = Finite (2589569785738035 / 2251799813685248)"
  "value_of 0x3FF128787C6F7D7A = Finite (2414786276474557 / 2251799813685248)"
  "value_of 0x3FF2666666666667 = Finite (5179139571476071 / 4503599627370496)"
  "value_of 0x3FD999999999999A = Finite (3602879701896397 / 9007199254740992)"
  "value_of 0x3FE3333333333333 = Finite (5404319552844595 / 9007199254740992)"
  "value_of 0x3FEE666666666666 = Finite (4278419646001971 / 4503599627370496)"
  "value_of 0x3FE999999999999A = Finite (3602879701896397 / 4503599627370496)"
  "value_of 0x4024000000000000 = Finite (10)"
  "value_of 0x3FC999999999999A = Finite (3602879701896397 / 18014398509481984)"
  "value_of 0x3FEC28F5C28F5C29 = Finite (7926335344172073 / 9007199254740992)"
  "value_of 0x3FF0000000000001 = Finite (4503599627370497 / 4503599627370496)"
  "value_of 0x3FEFFFFFFFFFFFFE = Finite (4503599627370495 / 4503599627370496)"
  by (simp_all add: value_of_def exponent_def fraction_def sign_of_def)

lemma pattern_signs:
  "sign_of 0x3FF0000000000000 = False"
  "sign_of 0x4000000000000000 = False"
  "sign_of 0 = False"
  "sign_of 0x4010000000000000 = False"
  "sign_of 0x4030000000000000 = False"
  "sign_of 0x4034000000000000 = False"
  "sign_of 0x4038000000000000 = False"
  "sign_of 0x4039000000000000 = False"
  "sign_of 0x4014000000000000 = False"
  "sign_of 0x4008000000000000 = False"
  "sign_of 0x4022000000000000 = False"
  "sign_of 0x4018000000000000 = False"
  "sign_of 0x4036000000000000 = False"
  "sign_of 0xBFF0000000000000 = True"
  "sign_of 0x3FB999999999999A = False"
  "sign_of 0x3F847AE147AE147C = False"
  "sign_of 0x3FE6666666666666 = False"
  "sign_of 0x3FDF5C28F5C28F5B = False"
  "sign_of 0x3FDFFFFFFFFFFFFF = False"
  "sign_of 0x3FE6A09E667F3BCC = False"
  "sign_of 0x3FDFFFFFFFFFFFFE = False"
  "sign_of 0x6974E718D7D7625A = False"
  "sign_of 0x7FF0000000000000 = False"
  "sign_of 0x7FF8000000000000 = False"
  "sign_of 0x3FE0000000000000 = False"
  "sign_of 0x3FD0000000000000 = False"
  "sign_of 0x3FD3333333333333 = False"
  "sign_of 0x3FB70A3D70A3D70A = False"
  "sign_of 0x3FECCCCCCCCCCCCD = False"
  "sign_of 0x3FD5C28F5C28F5C2 = False"
  "sign_of 0x3FE9EB851EB851EC = False"
  "sign_of 0x3FF2666666666666 = False"
  "sign_of 0x3FF128787C6F7D7A = False"
  "sign_of 0x3FF2666666666667 = False"
  "sign_of 0x3FD999999999999A = False"
  "sign_of 0x3FE3333333333333 = False"
  "sign_of 0x3FEE666666666666 = False"
  "sign_of 0x3FE999999999999A = False"
  "sign_of 0x4024000000000000 = False"
  "sign_of 0x3FC999999999999A = False"
  "sign_of 0x3FEC28F5C28F5C29 = False"
  "sign_of 0x3FF0000000000001 = False"
  "sign_of 0x3FEFFFFFFFFFFFFE = False"
  by (simp_all add: sign_of_def)

(* 1.0 * 2.0 = 2.0 *)
lemma fmul_1: "fmul 0x3FF0000000000000 0x4000000000000000 = 0x4000000000000000"
proof -
  have "fl False (2) = 0x4000000000000000"
    using fl_eval [of "2" "1" 4503599627370496 False] by (simp add: pack_def)
  then show ?thesis by (simp add: fmul_def pattern_values pattern_signs special_patterns)
qed

(* 0.0 + 2.0 = 2.0 *)
lemma fadd_1: "fadd 0 0x4000000000000000 = 0x4000000000000000"
proof -
  have "fl False (2) = 0x4000000000000000"
    using fl_eval [of "2" "1" 4503599627370496 False] by (simp add: pack_def)
  then show ?thesis by (simp add: fadd_def pattern_values pattern_signs special_patterns)
qed

(* 0.0 * 4.0 = 0.0 *)
lemma fmul_2: "fmul 0 0x4010000000000000 = 0"
  by (simp add: fmul_def pattern_values pattern_signs special_patterns)

(* 2.0 + 0.0 = 2.0 *)
lemma fadd_2: "fadd 0x4000000000000000 0 = 0x4000000000000000"
proof -
  have "fl False (2) = 0x4000000000000000"
    using fl_eval [of "2" "1" 4503599627370496 False] by (simp add: pack_def)
  then show ?thesis by (simp add: fadd_def pattern_values pattern_signs special_patterns)
qed

(* 0.0 * 2.0 = 0.0 *)
lemma fmul_3: "fmul 0 0x4000000000000000 = 0"
  by (simp add: fmul_def pattern_values pattern_signs special_patterns)

(* 0.0 * 1.0 = 0.0 *)
lemma fmul_4: "fmul 0 0x3FF0000000000000 = 0"
  by (simp add: fmul_def pattern_values pattern_signs special_patterns)

(* 1.0 * 1.0 = 1.0 *)
lemma fmul_5: "fmul 0x3FF0000000000000 0x3FF0000000000000 = 0x3FF0000000000000"
proof -
  have "fl False (1) = 0x3FF0000000000000"
    using fl_eval [of "1" "0" 4503599627370496 False] by (simp add: pack_def)
  then show ?thesis by (simp add: fmul_def pattern_values pattern_signs special_patterns)
qed

(* 0.0 + 1.0 = 1.0 *)
lemma fadd_3: "fadd 0 0x3FF0000000000000 = 0x3FF0000000000000"
proof -
  have "fl False (1) = 0x3FF0000000000000"
    using fl_eval [of "1" "0" 4503599627370496 False] by (simp add: pack_def)
  then show ?thesis by (simp add: fadd_def pattern_values pattern_signs special_patterns)
qed

(* 0.0 * 0.0 = 0.0 *)
lemma fmul_6: "fmul 0 0 = 0"
  by (simp add: fmul_def pattern_values pattern_signs special_patterns)

(* 1.0 + 0.0 = 1.0 *)
lemma fadd_4: "fadd 0x3FF0000000000000 0 = 0x3FF0000000000000"
proof -
  have "fl False (1) = 0x3FF0000000000000"
    using fl_eval [of "1" "0" 4503599627370496 False] by (simp add: pack_def)
  then show ?thesis by (simp add: fadd_def pattern_values pattern_signs special_patterns)
qed

(* 2.0 * 2.0 = 4.0 *)
lemma fmul_7: "fmul 0x4000000000000000 0x4000000000000000 = 0x4010000000000000"
proof -
  have "fl False (4) = 0x4010000000000000"
    using fl_eval [of "4" "2" 4503599627370496 False] by (simp add: pack_def)
  then show ?thesis by (simp add: fmul_def pattern_values pattern_signs special_patterns)
qed

(* 0.0 + 4.0 = 4.0 *)
lemma fadd_5: "fadd 0 0x4010000000000000 = 0x4010000000000000"
proof -
  have "fl False (4) = 0x4010000000000000"
    using fl_eval [of "4" "2" 4503599627370496 False] by (simp add: pack_def)
  then show ?thesis by (simp add: fadd_def pattern_values pattern_signs special_patterns)
qed

(* 4.0 * 4.0 = 16.0 *)
lemma fmul_8: "fmul 0x4010000000000000 0x4010000000000000 = 0x4030000000000000"
proof -
  have "fl False (16) = 0x4030000000000000"
    using fl_eval [of "16" "4" 4503599627370496 False] by (simp add: pack_def)
  then show ?thesis by (simp add: fmul_def pattern_values pattern_signs special_patterns)
qed

(* 4.0 + 16.0 = 20.0 *)
lemma fadd_6: "fadd 0x4010000000000000 0x4030000000000000 = 0x4034000000000000"
proof -
  have "fl False (20) = 0x4034000000000000"
    using fl_eval [of "20" "4" 5629499534213120 False] by (simp add: pack_def)
  then show ?thesis by (simp add: fadd_def pattern_values pattern_signs special_patterns)
qed

(* 20.0 + 4.0 = 24.0 *)
lemma fadd_7: "fadd 0x4034000000000000 0x4010000000000000 = 0x4038000000000000"
proof -
  have "fl False (24) = 0x4038000000000000"
    using fl_eval [of "24" "4" 6755399441055744 False] by (simp add: pack_def)
  then show ?thesis by (simp add: fadd_def pattern_values pattern_signs special_patterns)
qed

(* 24.0 + 1.0 = 25.0 *)
lemma fadd_8: "fadd 0x4038000000000000 0x3FF0000000000000 = 0x4039000000000000"
proof -
  have "fl False (25) = 0x4039000000000000"
    using fl_eval [of "25" "4" 7036874417766400 False] by (simp add: pack_def)
  then show ?thesis by (simp add: fadd_def pattern_values pattern_signs special_patterns)
qed

(* sqrt(1.0) = 1.0 *)
lemma fsqrt_1: "fsqrt 0x3FF0000000000000 = 0x3FF0000000000000"
proof -
  have "fl False (sqrt (1)) = 0x3FF0000000000000"
    using fl_sqrt_eval [of "1" "0" 4503599627370496 False] by (simp add: pack_def power2_eq_square)
  then show ?thesis by (simp add: fsqrt_def pattern_values pattern_signs special_patterns)
qed

(* sqrt(25.0) = 5.0 *)
lemma fsqrt_2: "fsqrt 0x4039000000000000 = 0x4014000000000000"
proof -
  have "fl False (sqrt (25)) = 0x4014000000000000"
    using fl_sqrt_eval [of "25" "2" 5629499534213120 False] by (simp add: pack_def power2_eq_square)
  then show ?thesis by (simp add: fsqrt_def pattern_values pattern_signs special_patterns)
qed

(* 1.0 * 5.0 = 5.0 *)
lemma fmul_9: "fmul 0x3FF0000000000000 0x4014000000000000 = 0x4014000000000000"
proof -
  have "fl False (5) = 0x4014000000000000"
    using fl_eval [of "5" "2" 5629499534213120 False] by (simp add: pack_def)
  then show ?thesis by (simp add: fmul_def pattern_values pattern_signs special_patterns)
qed

(* 2.0 / 5.0 = 0.4 *)
lemma fdiv_1: "fdiv 0x4000000000000000 0x4014000000000000 = 0x3FD999999999999A"
proof -
  have "fl False (2 / 5) = 0x3FD999999999999A"
    using fl_eval [of "2 / 5" "- 2" 7205759403792794 False] by (simp add: pack_def)
  then show ?thesis by (simp add: fdiv_def pattern_values pattern_signs special_patterns)
qed

(* 1.0 * 3.0 = 3.0 *)
lemma fmul_10: "fmul 0x3FF0000000000000 0x4008000000000000 = 0x4008000000000000"
proof -
  have "fl False (3) = 0x4008000000000000"
    using fl_eval [of "3" "1" 6755399441055744 False] by (simp add: pack_def)
  then show ?thesis by (simp add: fmul_def pattern_values pattern_signs special_patterns)
qed

(* 0.0 + 3.0 = 3.0 *)
lemma fadd_9: "fadd 0 0x4008000000000000 = 0x4008000000000000"
proof -
  have "fl False (3) = 0x4008000000000000"
    using fl_eval [of "3" "1" 6755399441055744 False] by (simp add: pack_def)
  then show ?thesis by (simp add: fadd_def pattern_values pattern_signs special_patterns)
qed

(* 3.0 + 0.0 = 3.0 *)
lemma fadd_10: "fadd 0x4008000000000000 0 = 0x4008000000000000"
proof -
  have "fl False (3) = 0x4008000000000000"
    using fl_eval [of "3" "1" 6755399441055744 False] by (simp add: pack_def)
  then show ?thesis by (simp add: fadd_def pattern_values pattern_signs special_patterns)
qed

(* 3.0 * 3.0 = 9.0 *)
lemma fmul_11: "fmul 0x4008000000000000 0x4008000000000000 = 0x4022000000000000"
proof -
  have "fl False (9) = 0x4022000000000000"
    using fl_eval [of "9" "3" 5066549580791808 False] by (simp add: pack_def)
  then show ?thesis by (simp add: fmul_def pattern_values pattern_signs special_patterns)
qed

(* 0.0 + 9.0 = 9.0 *)
lemma fadd_11: "fadd 0 0x4022000000000000 = 0x4022000000000000"
proof -
  have "fl False (9) = 0x4022000000000000"
    using fl_eval [of "9" "3" 5066549580791808 False] by (simp add: pack_def)
  then show ?thesis by (simp add: fadd_def pattern_values pattern_signs special_patterns)
qed

(* 9.0 + 16.0 = 25.0 *)
lemma fadd_12: "fadd 0x4022000000000000 0x4030000000000000 = 0x4039000000000000"
proof -
  have "fl False (25) = 0x4039000000000000"
    using fl_eval [of "25" "4" 7036874417766400 False] by (simp add: pack_def)
  then show ?thesis by (simp add: fadd_def pattern_values pattern_signs special_patterns)
qed

(* 25.0 + 0.0 = 25.0 *)
lemma fadd_13: "fadd 0x4039000000000000 0 = 0x4039000000000000"
proof -
  have "fl False (25) = 0x4039000000000000"
    using fl_eval [of "25" "4" 7036874417766400 False] by (simp add: pack_def)
  then show ?thesis by (simp add: fadd_def pattern_values pattern_signs special_patterns)
qed

(* 3.0 / 5.0 = 0.6 *)
lemma fdiv_2: "fdiv 0x4008000000000000 0x4014000000000000 = 0x3FE3333333333333"
proof -
  have "fl False (3 / 5) = 0x3FE3333333333333"
    using fl_eval [of "3 / 5" "- 1" 5404319552844595 False] by (simp add: pack_def)
  then show ?thesis by (simp add: fdiv_def pattern_values pattern_signs special_patterns)
qed

(* 5.0 * 5.0 = 25.0 *)
lemma fmul_12: "fmul 0x4014000000000000 0x4014000000000000 = 0x4039000000000000"
proof -
  have "fl False (25) = 0x4039000000000000"
    using fl_eval [of "25" "4" 7036874417766400 False] by (simp add: pack_def)
  then show ?thesis by (simp add: fmul_def pattern_values pattern_signs special_patterns)
qed

(* 25.0 / 25.0 = 1.0 *)
lemma fdiv_3: "fdiv 0x4039000000000000 0x4039000000000000 = 0x3FF0000000000000"
proof -
  have "fl False (1) = 0x3FF0000000000000"
    using fl_eval [of "1" "0" 4503599627370496 False] by (simp add: pack_def)
  then show ?thesis by (simp add: fdiv_def pattern_values pattern_signs special_patterns)
qed

(* 2.0 * 3.0 = 6.0 *)
lemma fmul_13: "fmul 0x4000000000000000 0x4008000000000000 = 0x4018000000000000"
proof -
  have "fl False (6) = 0x4018000000000000"
    using fl_eval [of "6" "2" 6755399441055744 False] by (simp add: pack_def)
  then show ?thesis by (simp add: fmul_def pattern_values pattern_signs special_patterns)
qed

(* 0.0 + 6.0 = 6.0 *)
lemma fadd_14: "fadd 0 0x4018000000000000 = 0x4018000000000000"
proof -
  have "fl False (6) = 0x4018000000000000"
    using fl_eval [of "6" "2" 6755399441055744 False] by (simp add: pack_def)
  then show ?thesis by (simp add: fadd_def pattern_values pattern_signs special_patterns)
qed

(* 6.0 + 16.0 = 22.0 *)
lemma fadd_15: "fadd 0x4018000000000000 0x4030000000000000 = 0x4036000000000000"
proof -
  have "fl False (22) = 0x4036000000000000"
    using fl_eval [of "22" "4" 6192449487634432 False] by (simp add: pack_def)
  then show ?thesis by (simp add: fadd_def pattern_values pattern_signs special_patterns)
qed

(* 2.0 * 0.0 = 0.0 *)
lemma fmul_14: "fmul 0x4000000000000000 0 = 0"
  by (simp add: fmul_def pattern_values pattern_signs special_patterns)

(* 22.0 + 0.0 = 22.0 *)
lemma fadd_16: "fadd 0x4036000000000000 0 = 0x4036000000000000"
proof -
  have "fl False (22) = 0x4036000000000000"
    using fl_eval [of "22" "4" 6192449487634432 False] by (simp add: pack_def)
  then show ?thesis by (simp add: fadd_def pattern_values pattern_signs special_patterns)
qed

(* 1.0 * 0.0 = 0.0 *)
lemma fmul_15: "fmul 0x3FF0000000000000 0 = 0"
  by (simp add: fmul_def pattern_values pattern_signs special_patterns)

(* 22.0 / 25.0 = 0.88 *)
lemma fdiv_4: "fdiv 0x4036000000000000 0x4039000000000000 = 0x3FEC28F5C28F5C29"
proof -
  have "fl False (22 / 25) = 0x3FEC28F5C28F5C29"
    using fl_eval [of "22 / 25" "- 1" 7926335344172073 False] by (simp add: pack_def)
  then show ?thesis by (simp add: fdiv_def pattern_values pattern_signs special_patterns)
qed

(* 0.0 + 0.0 = 0.0 *)
lemma fadd_17: "fadd 0 0 = 0"
  by (simp add: fadd_def pattern_values pattern_signs special_patterns)

(* 1.0 / 5.0 = 0.2 *)
lemma fdiv_5: "fdiv 0x3FF0000000000000 0x4014000000000000 = 0x3FC999999999999A"
proof -
  have "fl False (1 / 5) = 0x3FC999999999999A"
    using fl_eval [of "1 / 5" "- 3" 7205759403792794 False] by (simp add: pack_def)
  then show ?thesis by (simp add: fdiv_def pattern_values pattern_signs special_patterns)
qed

(* 0.0 * 3.0 = 0.0 *)
lemma fmul_16: "fmul 0 0x4008000000000000 = 0"
  by (simp add: fmul_def pattern_values pattern_signs special_patterns)

(* 0.0 / 5.0 = 0.0 *)
lemma fdiv_6: "fdiv 0 0x4014000000000000 = 0"
  by (simp add: fdiv_def pattern_values pattern_signs special_patterns)

(* 1.0 * -1.0 = -1.0 *)
lemma fmul_17: "fmul 0x3FF0000000000000 0xBFF0000000000000 = 0xBFF0000000000000"
proof -
  have "fl True (- 1) = 0xBFF0000000000000"
    using fl_eval [of "- 1" "0" 4503599627370496 True] by (simp add: pack_def)
  then show ?thesis by (simp add: fmul_def pattern_values pattern_signs special_patterns)
qed

(* 0.0 + -1.0 = -1.0 *)
lemma fadd_18: "fadd 0 0xBFF0000000000000 = 0xBFF0000000000000"
proof -
  have "fl False (- 1) = 0xBFF0000000000000"
    using fl_eval [of "- 1" "0" 4503599627370496 False] by (simp add: pack_def)
  then show ?thesis by (simp add: fadd_def pattern_values pattern_signs special_patterns)
qed

(* -1.0 * -1.0 = 1.0 *)
lemma fmul_18: "fmul 0xBFF0000000000000 0xBFF0000000000000 = 0x3FF0000000000000"
proof -
  have "fl False (1) = 0x3FF0000000000000"
    using fl_eval [of "1" "0" 4503599627370496 False] by (simp add: pack_def)
  then show ?thesis by (simp add: fmul_def pattern_values pattern_signs special_patterns)
qed

(* -1.0 / 1.0 = -1.0 *)
lemma fdiv_7: "fdiv 0xBFF0000000000000 0x3FF0000000000000 = 0xBFF0000000000000"
proof -
  have "fl True (- 1) = 0xBFF0000000000000"
    using fl_eval [of "- 1" "0" 4503599627370496 True] by (simp add: pack_def)
  then show ?thesis by (simp add: fdiv_def pattern_values pattern_signs special_patterns)
qed

(* 0.1 * 0.1 = 0.010000000000000002 *)
lemma fmul_19: "fmul 0x3FB999999999999A 0x3FB999999999999A = 0x3F847AE147AE147C"
proof -
  have "fl False (12980742146337070512478121581609 / 1298074214633706907132624082305024) = 0x3F847AE147AE147C"
    using fl_eval [of "12980742146337070512478121581609 / 1298074214633706907132624082305024" "- 7" 5764607523034236 False] by (simp add: pack_def)
  then show ?thesis by (simp add: fmul_def pattern_values pattern_signs special_patterns)
qed

(* 0.0 + 0.010000000000000002 = 0.010000000000000002 *)
lemma fadd_19: "fadd 0 0x3F847AE147AE147C = 0x3F847AE147AE147C"
proof -
  have "fl False (1441151880758559 / 144115188075855872) = 0x3F847AE147AE147C"
    using fl_eval [of "1441151880758559 / 144115188075855872" "- 7" 5764607523034236 False] by (simp add: pack_def)
  then show ?thesis by (simp add: fadd_def pattern_values pattern_signs special_patterns)
qed

(* 0.7 * 0.7 = 0.48999999999999994 *)
lemma fmul_20: "fmul 0x3FE6666666666666 0x3FE6666666666666 = 0x3FDF5C28F5C28F5B"
proof -
  have "fl False (9938380705789317246726257466409 / 20282409603651670423947251286016) = 0x3FDF5C28F5C28F5B"
    using fl_eval [of "9938380705789317246726257466409 / 20282409603651670423947251286016" "- 2" 8827055269646171 False] by (simp add: pack_def)
  then show ?thesis by (simp add: fmul_def pattern_values pattern_signs special_patterns)
qed

(* 0.010000000000000002 + 0.48999999999999994 = 0.49999999999999994 *)
lemma fadd_20: "fadd 0x3F847AE147AE147C 0x3FDF5C28F5C28F5B = 0x3FDFFFFFFFFFFFFF"
proof -
  have "fl False (72057594037927927 / 144115188075855872) = 0x3FDFFFFFFFFFFFFF"
    using fl_eval [of "72057594037927927 / 144115188075855872" "- 2" 9007199254740991 False] by (simp add: pack_def)
  then show ?thesis by (simp add: fadd_def pattern_values pattern_signs special_patterns)
qed

(* sqrt(0.49999999999999994) = 0.7071067811865475 *)
lemma fsqrt_3: "fsqrt 0x3FDFFFFFFFFFFFFF = 0x3FE6A09E667F3BCC"
proof -
  have "fl False (sqrt (9007199254740991 / 18014398509481984)) = 0x3FE6A09E667F3BCC"
    using fl_sqrt_eval [of "9007199254740991 / 18014398509481984" "- 1" 6369051672525772 False] by (simp add: pack_def power2_eq_square)
  then show ?thesis by (simp add: fsqrt_def pattern_values pattern_signs special_patterns)
qed

(* 0.7071067811865475 * 0.7071067811865475 = 0.4999999999999999 *)
lemma fmul_21: "fmul 0x3FE6A09E667F3BCC 0x3FE6A09E667F3BCC = 0x3FDFFFFFFFFFFFFE"
proof -
  have "fl False (2535301200456458353478625262249 / 5070602400912917605986812821504) = 0x3FDFFFFFFFFFFFFE"
    using fl_eval [of "2535301200456458353478625262249 / 5070602400912917605986812821504" "- 2" 9007199254740990 False] by (simp add: pack_def)
  then show ?thesis by (simp add: fmul_def pattern_values pattern_signs special_patterns)
qed

(* 0.49999999999999994 / 0.4999999999999999 = 1.0000000000000002 *)
lemma fdiv_8: "fdiv 0x3FDFFFFFFFFFFFFF 0x3FDFFFFFFFFFFFFE = 0x3FF0000000000001"
proof -
  have "fl False (9007199254740991 / 9007199254740990) = 0x3FF0000000000001"
    using fl_eval [of "9007199254740991 / 9007199254740990" "0" 4503599627370497 False] by (simp add: pack_def)
  then show ?thesis by (simp add: fdiv_def pattern_values pattern_signs special_patterns)
qed

(* 1e+200 * 1e+200 = Infinity *)
lemma fmul_22: "fmul 0x6974E718D7D7625A 0x6974E718D7D7625A = 0x7FF0000000000000"
proof -
  have "fl False (9999999999999999394662444250207242350328975537437122472339781620627054208687723630273803080019321330542305583946752893233248807023279528544321615522160248929124666144096269561533145561164738489983397621092322208138630994725213747351190385096618755256077267472586468217736468683611398422884121732612670396695303894425945224331154483477963396905445761715933439520020822843337114038314499908946523848704) = infinity False"
    using fl_overflow [of "9999999999999999394662444250207242350328975537437122472339781620627054208687723630273803080019321330542305583946752893233248807023279528544321615522160248929124666144096269561533145561164738489983397621092322208138630994725213747351190385096618755256077267472586468217736468683611398422884121732612670396695303894425945224331154483477963396905445761715933439520020822843337114038314499908946523848704" False] by simp
  then show ?thesis by (simp add: fmul_def pattern_values pattern_signs special_patterns)
qed

(* 0.0 + Infinity = Infinity *)
lemma fadd_21: "fadd 0 0x7FF0000000000000 = 0x7FF0000000000000"
  by (simp add: fadd_def pattern_values pattern_signs special_patterns)

(* Infinity + Infinity = Infinity *)
lemma fadd_22: "fadd 0x7FF0000000000000 0x7FF0000000000000 = 0x7FF0000000000000"
  by (simp add: fadd_def pattern_values pattern_signs special_patterns)

(* sqrt(Infinity) = Infinity *)
lemma fsqrt_4: "fsqrt 0x7FF0000000000000 = 0x7FF0000000000000"
  by (simp add: fsqrt_def pattern_values pattern_signs special_patterns)

(* Infinity * Infinity = Infinity *)
lemma fmul_23: "fmul 0x7FF0000000000000 0x7FF0000000000000 = 0x7FF0000000000000"
  by (simp add: fmul_def pattern_values pattern_signs special_patterns)

(* Infinity / Infinity = NaN *)
lemma fdiv_9: "fdiv 0x7FF0000000000000 0x7FF0000000000000 = 0x7FF8000000000000"
  by (simp add: fdiv_def pattern_values pattern_signs special_patterns)

(* 0.0 * 1e+200 = 0.0 *)
lemma fmul_24: "fmul 0 0x6974E718D7D7625A = 0"
  by (simp add: fmul_def pattern_values pattern_signs special_patterns)

(* sqrt(0.0) = 0.0 *)
lemma fsqrt_5: "fsqrt 0 = 0"
  by (simp add: fsqrt_def pattern_values pattern_signs special_patterns)

(* 0.0 * Infinity = NaN *)
lemma fmul_25: "fmul 0 0x7FF0000000000000 = 0x7FF8000000000000"
  by (simp add: fmul_def pattern_values pattern_signs special_patterns)

(* 0.0 / NaN = NaN *)
lemma fdiv_10: "fdiv 0 0x7FF8000000000000 = 0x7FF8000000000000"
  by (simp add: fdiv_def pattern_values pattern_signs special_patterns)

(* sqrt(9.0) = 3.0 *)
lemma fsqrt_6: "fsqrt 0x4022000000000000 = 0x4008000000000000"
proof -
  have "fl False (sqrt (9)) = 0x4008000000000000"
    using fl_sqrt_eval [of "9" "1" 6755399441055744 False] by (simp add: pack_def power2_eq_square)
  then show ?thesis by (simp add: fsqrt_def pattern_values pattern_signs special_patterns)
qed

(* 3.0 * 0.0 = 0.0 *)
lemma fmul_26: "fmul 0x4008000000000000 0 = 0"
  by (simp add: fmul_def pattern_values pattern_signs special_patterns)

(* 0.5 * 0.5 = 0.25 *)
lemma fmul_27: "fmul 0x3FE0000000000000 0x3FE0000000000000 = 0x3FD0000000000000"
proof -
  have "fl False (1 / 4) = 0x3FD0000000000000"
    using fl_eval [of "1 / 4" "- 2" 4503599627370496 False] by (simp add: pack_def)
  then show ?thesis by (simp add: fmul_def pattern_values pattern_signs special_patterns)
qed

(* 0.0 + 0.25 = 0.25 *)
lemma fadd_23: "fadd 0 0x3FD0000000000000 = 0x3FD0000000000000"
proof -
  have "fl False (1 / 4) = 0x3FD0000000000000"
    using fl_eval [of "1 / 4" "- 2" 4503599627370496 False] by (simp add: pack_def)
  then show ?thesis by (simp add: fadd_def pattern_values pattern_signs special_patterns)
qed

(* 0.3 * 0.3 = 0.09 *)
lemma fmul_28: "fmul 0x3FD3333333333333 0x3FD3333333333333 = 0x3FB70A3D70A3D70A"
proof -
  have "fl False (29206669829258403248756220714025 / 324518553658426726783156020576256) = 0x3FB70A3D70A3D70A"
    using fl_eval [of "29206669829258403248756220714025 / 324518553658426726783156020576256" "- 4" 6485183463413514 False] by (simp add: pack_def)
  then show ?thesis by (simp add: fmul_def pattern_values pattern_signs special_patterns)
qed

(* 0.25 + 0.09 = 0.33999999999999997 *)
lemma fadd_24: "fadd 0x3FD0000000000000 0x3FB70A3D70A3D70A = 0x3FD5C28F5C28F5C2"
proof -
  have "fl False (12249790986447749 / 36028797018963968) = 0x3FD5C28F5C28F5C2"
    using fl_eval_round [of "12249790986447749 / 36028797018963968" "- 2" 6124895493223874 False]
    by (simp add: pack_def round_half_even_def)
  then show ?thesis by (simp add: fadd_def pattern_values pattern_signs special_patterns)
qed

(* 0.9 * 0.9 = 0.81 *)
lemma fmul_29: "fmul 0x3FECCCCCCCCCCCCD 0x3FECCCCCCCCCCCCD = 0x3FE9EB851EB851EC"
proof -
  have "fl False (65715007115831415416180825873449 / 81129638414606681695789005144064) = 0x3FE9EB851EB851EC"
    using fl_eval [of "65715007115831415416180825873449 / 81129638414606681695789005144064" "- 1" 7295831396340204 False] by (simp add: pack_def)
  then show ?thesis by (simp add: fmul_def pattern_values pattern_signs special_patterns)
qed

(* 0.33999999999999997 + 0.81 = 1.15 *)
lemma fadd_25: "fadd 0x3FD5C28F5C28F5C2 0x3FE9EB851EB851EC = 0x3FF2666666666666"
proof -
  have "fl False (10358279142952141 / 9007199254740992) = 0x3FF2666666666666"
    using fl_eval_round [of "10358279142952141 / 9007199254740992" "0" 5179139571476070 False]
    by (simp add: pack_def round_half_even_def)
  then show ?thesis by (simp add: fadd_def pattern_values pattern_signs special_patterns)
qed

(* sqrt(1.15) = 1.0723805294763609 *)
lemma fsqrt_7: "fsqrt 0x3FF2666666666666 = 0x3FF128787C6F7D7A"
proof -
  have "fl False (sqrt (2589569785738035 / 2251799813685248)) = 0x3FF128787C6F7D7A"
    using fl_sqrt_eval [of "2589569785738035 / 2251799813685248" "0" 4829572552949114 False] by (simp add: pack_def power2_eq_square)
  then show ?thesis by (simp add: fsqrt_def pattern_values pattern_signs special_patterns)
qed

(* 1.0723805294763609 * 1.0723805294763609 = 1.1500000000000001 *)
lemma fmul_30: "fmul 0x3FF128787C6F7D7A 0x3FF128787C6F7D7A = 0x3FF2666666666667"
proof -
  have "fl False (5831192761049855637784668346249 / 5070602400912917605986812821504) = 0x3FF2666666666667"
    using fl_eval [of "5831192761049855637784668346249 / 5070602400912917605986812821504" "0" 5179139571476071 False] by (simp add: pack_def)
  then show ?thesis by (simp add: fmul_def pattern_values pattern_signs special_patterns)
qed

(* 1.15 / 1.1500000000000001 = 0.9999999999999998 *)
lemma fdiv_11: "fdiv 0x3FF2666666666666 0x3FF2666666666667 = 0x3FEFFFFFFFFFFFFE"
proof -
  have "fl False (5179139571476070 / 5179139571476071) = 0x3FEFFFFFFFFFFFFE"
    using fl_eval [of "5179139571476070 / 5179139571476071" "- 1" 9007199254740990 False] by (simp add: pack_def)
  then show ?thesis by (simp add: fdiv_def pattern_values pattern_signs special_patterns)
qed

(* 0.4 * 2.0 = 0.8 *)
lemma fmul_31: "fmul 0x3FD999999999999A 0x4000000000000000 = 0x3FE999999999999A"
proof -
  have "fl False (3602879701896397 / 4503599627370496) = 0x3FE999999999999A"
    using fl_eval [of "3602879701896397 / 4503599627370496" "- 1" 7205759403792794 False] by (simp add: pack_def)
  then show ?thesis by (simp add: fmul_def pattern_values pattern_signs special_patterns)
qed

(* 5.0 * 2.0 = 10.0 *)
lemma fmul_32: "fmul 0x4014000000000000 0x4000000000000000 = 0x4024000000000000"
proof -
  have "fl False (10) = 0x4024000000000000"
    using fl_eval [of "10" "3" 5629499534213120 False] by (simp add: pack_def)
  then show ?thesis by (simp add: fmul_def pattern_values pattern_signs special_patterns)
qed

(* 0.6 * 0.0 = 0.0 *)
lemma fmul_33: "fmul 0x3FE3333333333333 0 = 0"
  by (simp add: fmul_def pattern_values pattern_signs special_patterns)

text \<open>
  The number literals of the program and of the examples stand for the doubles nearest to
  them.
\<close>

lemma literals:
  "fl False (19 / 20) = 0x3FEE666666666666"
  "fl False (1) = 0x3FF0000000000000"
  "fl False (2) = 0x4000000000000000"
  "fl False (- 1) = 0xBFF0000000000000"
  "fl False (1 / 10) = 0x3FB999999999999A"
  "fl False (3 / 10) = 0x3FD3333333333333"
  "fl False (2 / 5) = 0x3FD999999999999A"
  "fl False (1 / 2) = 0x3FE0000000000000"
  "fl False (3 / 5) = 0x3FE3333333333333"
  "fl False (7 / 10) = 0x3FE6666666666666"
  "fl False (4 / 5) = 0x3FE999999999999A"
  "fl False (9 / 10) = 0x3FECCCCCCCCCCCCD"
  "fl False (100000000000000000000000000000000000000000000000000000000000000000000000000000000000000000000000000000000000000000000000000000000000000000000000000000000000000000000000000000000000000000000000000000000) = 0x6974E718D7D7625A"
proof -
  show "fl False (19 / 20) = 0x3FEE666666666666"
    using fl_eval [of "19 / 20" "- 1" 8556839292003942 False] by (simp add: pack_def)
  show "fl False (1) = 0x3FF0000000000000"
    using fl_eval [of "1" "0" 4503599627370496 False] by (simp add: pack_def)
  show "fl False (2) = 0x4000000000000000"
    using fl_eval [of "2" "1" 4503599627370496 False] by (simp add: pack_def)
  show "fl False (- 1) = 0xBFF0000000000000"
    using fl_eval [of "- 1" "0" 4503599627370496 False] by (simp add: pack_def)
  show "fl False (1 / 10) = 0x3FB999999999999A"
    using fl_eval [of "1 / 10" "- 4" 7205759403792794 False] by (simp add: pack_def)
  show "fl False (3 / 10) = 0x3FD3333333333333"
    using fl_eval [of "3 / 10" "- 2" 5404319552844595 False] by (simp add: pack_def)
  show "fl False (2 / 5) = 0x3FD999999999999A"
    using fl_eval [of "2 / 5" "- 2" 7205759403792794 False] by (simp add: pack_def)
  show "fl False (1 / 2) = 0x3FE0000000000000"
    using fl_eval [of "1 / 2" "- 1" 4503599627370496 False] by (simp add: pack_def)
  show "fl False (3 / 5) = 0x3FE3333333333333"
    using fl_eval [of "3 / 5" "- 1" 5404319552844595 False] by (simp add: pack_def)
  show "fl False (7 / 10) = 0x3FE6666666666666"
    using fl_eval [of "7 / 10" "- 1" 6305039478318694 False] by (simp add: pack_def)
  show "fl False (4 / 5) = 0x3FE999999999999A"
    using fl_eval [of "4 / 5" "- 1" 7205759403792794 False] by (simp add: pack_def)
  show "fl False (9 / 10) = 0x3FECCCCCCCCCCCCD"
    using fl_eval [of "9 / 10" "- 1" 8106479329266893 False] by (simp add: pack_def)
  show "fl False (100000000000000000000000000000000000000000000000000000000000000000000000000000000000000000000000000000000000000000000000000000000000000000000000000000000000000000000000000000000000000000000000000000000) = 0x6974E718D7D7625A"
    using fl_eval [of "100000000000000000000000000000000000000000000000000000000000000000000000000000000000000000000000000000000000000000000000000000000000000000000000000000000000000000000000000000000000000000000000000000000" "664" 5883593420661338 False] by (simp add: pack_def)
qed

lemmas operations =
  fmul_1 fadd_1 fmul_2 fadd_2 fmul_3 fmul_4 fmul_5 fadd_3
  fmul_6 fadd_4 fmul_7 fadd_5 fmul_8 fadd_6 fadd_7 fadd_8
  fsqrt_1 fsqrt_2 fmul_9 fdiv_1 fmul_10 fadd_9 fadd_10 fmul_11
  fadd_11 fadd_12 fadd_13 fdiv_2 fmul_12 fdiv_3 fmul_13 fadd_14
  fadd_15 fmul_14 fadd_16 fmul_15 fdiv_4 fadd_17 fdiv_5 fmul_16
  fdiv_6 fmul_17 fadd_18 fmul_18 fdiv_7 fmul_19 fadd_19 fmul_20
  fadd_20 fsqrt_3 fmul_21 fdiv_8 fmul_22 fadd_21 fadd_22 fsqrt_4
  fmul_23 fdiv_9 fmul_24 fsqrt_5 fmul_25 fdiv_10 fsqrt_6 fmul_26
  fmul_27 fadd_23 fmul_28 fadd_24 fmul_29 fadd_25 fsqrt_7 fmul_30
  fdiv_11 fmul_31 fmul_32 fmul_33

section \<open>Properties of the similarity\<close>

lemma cosine_loop_fold:
  "i \<le> len \<Longrightarrow> cosine_loop a b len i (d, x, y) =
     (foldl fadd d (map (\<lambda>k. fmul (a ! k) (b ! k)) [i..<len]),
      foldl fadd x (map (\<lambda>k. fmul (a ! k) (a ! k)) [i..<len]),
      foldl fadd y (map (\<lambda>k. fmul (b ! k) (b ! k)) [i..<len]))"
proof (induction a b len i "(d, x, y)" arbitrary: d x y rule: cosine_loop.induct)
  case (1 a b len i dot normA normB)
  show ?case
  proof (cases "i < len")
    case True
    then show ?thesis
      using "1.hyps" [OF True]
      by (subst cosine_loop.simps) (simp add: upt_conv_Cons)
  next
    case False
    with "1.prems" show ?thesis
      by (subst cosine_loop.simps) simp
  qed
qed

lemma map_nth_zip_take:
  "n \<le> length a \<Longrightarrow> n \<le> length b \<Longrightarrow>
     map (\<lambda>k. f (a ! k) (b ! k)) [0..<n] = map (\<lambda>(x, y). f x y) (zip (take n a) (take n b))"
  by (rule nth_equalityI) simp_all

lemma map_nth_take:
  "n \<le> length a \<Longrightarrow> map (\<lambda>k. f (a ! k)) [0..<n] = map f (take n a)"
  by (rule nth_equalityI) simp_all

lemma cosineSimilarity_prefix_cosine: "cosineSimilarity a b = prefix_cosine a b"
proof -
  let ?n = "min (length a) (length b)"
  have "cosine_loop a b ?n 0 (double_0, double_0, double_0) =
        (dot_product (take ?n a) (take ?n b),
         squared_magnitude (take ?n a), squared_magnitude (take ?n b))"
    using map_nth_zip_take [of ?n a b fmul] map_nth_take [of ?n a "\<lambda>x. fmul x x"]
      map_nth_take [of ?n b "\<lambda>x. fmul x x"]
    by (simp add: cosine_loop_fold dot_product_def squared_magnitude_def fsum_def)
  then show ?thesis
    by (simp add: cosineSimilarity_def prefix_cosine_def shared_prefix_def magnitude_def Let_def)
qed










lemmas example_numbers =
  double_0_def double_1_def double_2_def double_0_95_def f0_def f1_def f2_def f3_def f4_def
  f5_def minus_1_def d_0_1_def d_0_3_def d_0_4_def d_0_5_def d_0_6_def d_0_7_def d_0_8_def
  d_0_9_def d_1e200_def above_1_def below_1_def

lemmas cosine_evaluation =
  cosineSimilarity_prefix_cosine prefix_cosine_def shared_prefix_def magnitude_def
  squared_magnitude_def dot_product_def fsum_def is_zero_def is_nan_def is_finite_def
  example_numbers operations pattern_values

lemma cosine_examples:
  "cosineSimilarity [f1, f0, f0, f0] [f2, f4, f2, f1] = d_0_4"
  "cosineSimilarity [f1, f0, f0, f0] [f3, f4, f0, f0] = d_0_6"
  "cosineSimilarity [f2, f4, f2, f1] [f2, f4, f2, f1] = double_1"
  "cosineSimilarity [f2, f4, f2, f1] [f3, f4, f0, f0] = 0x3FEC28F5C28F5C29"
  "cosineSimilarity [f0, f0, f0, f1] [f2, f4, f2, f1] = 0x3FC999999999999A"
  "cosineSimilarity [f0, f0, f0, f1] [f3, f4, f0, f0] = double_0"
  by (simp_all add: cosine_evaluation)



lemma cosine_overflow: "is_nan (cosineSimilarity [d_1e200, d_1e200] [d_1e200, d_1e200])"
  by (simp add: cosine_evaluation)






section \<open>Search\<close>

lemma scan_rows_candidate:
  "scan_rows q m rows = List.map_filter (candidate q m) rows"
  by (induction rows)
    (auto simp: candidate_def map_filter_simps Let_def split: option.splits sum.splits)

lemma in_scan_rows:
  "r \<in> set (scan_rows q m rows) \<longleftrightarrow> (\<exists>row \<in> set rows. candidate q m row = Some r)"
  by (induction rows) (auto simp: scan_rows_candidate map_filter_simps split: option.splits)

lemma candidate_SomeD:
  "candidate q m row = Some r \<Longrightarrow>
     indexed row \<and> similarity_to q row = Some (score r) \<and> fge (score r) m
     \<and> entry_id (entry r) = row_id row \<and> category (entry r) = row_category row"
  by (auto simp: candidate_def indexed_def similarity_to_def row_entry_def Let_def
      split: option.splits sum.splits if_splits)

lemma candidate_SomeI:
  "similarity_to q row = Some s \<Longrightarrow> fge s m \<Longrightarrow> \<exists>r. candidate q m row = Some r \<and> score r = s"
  by (auto simp: candidate_def similarity_to_def Let_def split: option.splits sum.splits)

lemma candidate_not_indexed: "\<not> indexed row \<Longrightarrow> candidate q m row = None"
  by (auto simp: candidate_def indexed_def split: option.splits sum.splits)

lemma scan_rows_indexed: "scan_rows q m (filter indexed rows) = scan_rows q m rows"
  by (induction rows)
    (auto simp: scan_rows_candidate map_filter_simps candidate_not_indexed split: option.splits)

lemma length_scan_rows: "length (scan_rows q m rows) \<le> length rows"
  by (induction rows) (auto simp: Let_def split: option.splits sum.splits)

lemma scores_scan_rows: "list_all (\<lambda>r. fge (score r) m) (scan_rows q m rows)"
  by (auto simp: list_all_iff in_scan_rows dest: candidate_SomeD)

lemma no_nan_scan_rows: "no_nan_scores (scan_rows q m rows)"
  using scores_scan_rows [of m q rows] by (auto simp: no_nan_scores_def list_all_iff dest: fge_not_nan)

lemma set_sort_desc [simp]: "set (sort_desc rs) = set rs"
  by (simp add: sort_desc_def)

lemma length_sort_desc [simp]: "length (sort_desc rs) = length rs"
  by (simp add: sort_desc_def)

lemma by_score_positive:
  "\<not> is_nan (score a) \<Longrightarrow> \<not> is_nan (score b) \<Longrightarrow>
     fpositive (by_score a b) \<longleftrightarrow> fgt (score b) (score a)"
  by (simp add: by_score_def fsub_positive)

lemma insert_by_descending:
  assumes "\<not> is_nan (score x)" and "no_nan_scores ys" and "descending ys"
  shows "descending (insert_by by_score x ys)"
  using assms(2,3)
proof (induction ys)
  case Nil
  show ?case by (simp add: descending_def)
next
  case (Cons y ys)
  from Cons.prems have y: "\<not> is_nan (score y)" and nn: "no_nan_scores ys"
    and d: "descending ys" and above: "\<forall>z \<in> set ys. fge (score y) (score z)"
    by (simp_all add: no_nan_scores_def descending_def)
  note pos = by_score_positive [OF assms(1) y]
  show ?case
  proof (cases "fgt (score y) (score x)")
    case True
    then have "fge (score y) (score x)" by (rule fgt_fge)
    with above Cons.IH [OF nn d] True show ?thesis
      by (simp add: pos descending_def)
  next
    case False
    with assms(1) y have xy: "fge (score x) (score y)" by (intro not_fgt_fge)
    then have "\<forall>z \<in> set ys. fge (score x) (score z)"
      using above fge_trans by blast
    with xy Cons.prems(2) False show ?thesis
      by (simp add: pos descending_def)
  qed
qed

lemma descending_sort_desc: "no_nan_scores rs \<Longrightarrow> descending (sort_desc rs)"
proof (induction rs)
  case Nil
  show ?case by (simp add: sort_desc_def descending_def)
next
  case (Cons r rs)
  then have r: "\<not> is_nan (score r)" and nn: "no_nan_scores rs"
    by (simp_all add: no_nan_scores_def)
  have "no_nan_scores (js_sort by_score rs)"
    using nn by (simp add: no_nan_scores_def list_all_iff)
  with Cons.IH [OF nn] r show ?case
    by (simp add: sort_desc_def js_sort_Cons insert_by_descending)
qed

text \<open>
  The sorted list is a rearrangement of the results, in descending order of score, in which
  results of equal score keep their order: what every stable sort gives for scores without
  NaN, where the comparison function is consistent.
\<close>

lemma count_list_insert_by: "count_list (insert_by c x ys) z = count_list (x # ys) z"
  by (induction ys) auto

lemma count_list_sort_desc: "count_list (sort_desc rs) z = count_list rs z"
  by (induction rs) (simp_all add: sort_desc_def js_sort_Cons count_list_insert_by)

lemma fgt_values_differ: "fgt a b \<Longrightarrow> value_of a \<noteq> value_of b"
  by (cases "value_of a"; cases "value_of b") (auto simp: fgt_def)

lemma insert_by_stable:
  assumes "\<not> is_nan (score x)" and "no_nan_scores ys"
  shows "filter (\<lambda>r. value_of (score r) = v) (insert_by by_score x ys)
     = filter (\<lambda>r. value_of (score r) = v) (x # ys)"
  using assms(2)
proof (induction ys)
  case Nil
  show ?case by simp
next
  case (Cons y ys)
  then have y: "\<not> is_nan (score y)" and nn: "no_nan_scores ys"
    by (simp_all add: no_nan_scores_def)
  note pos = by_score_positive [OF assms(1) y]
  show ?case
  proof (cases "fgt (score y) (score x)")
    case True
    then have "value_of (score y) \<noteq> value_of (score x)" by (rule fgt_values_differ)
    with Cons.IH [OF nn] True show ?thesis by (auto simp: pos)
  next
    case False
    then show ?thesis by (simp add: pos)
  qed
qed

lemma sort_desc_stable:
  "no_nan_scores rs \<Longrightarrow>
     filter (\<lambda>r. value_of (score r) = v) (sort_desc rs) = filter (\<lambda>r. value_of (score r) = v) rs"
proof (induction rs)
  case Nil
  show ?case by (simp add: sort_desc_def)
next
  case (Cons r rs)
  then have r: "\<not> is_nan (score r)" and nn: "no_nan_scores rs"
    by (simp_all add: no_nan_scores_def)
  have "no_nan_scores (js_sort by_score rs)"
    using nn by (simp add: no_nan_scores_def list_all_iff)
  from insert_by_stable [OF r this, of v] Cons.IH [OF nn] show ?case
    by (simp add: sort_desc_def js_sort_Cons)
qed

lemma descending_take: "descending rs \<Longrightarrow> descending (take n rs)"
  by (simp add: descending_def sorted_wrt_take)

lemma descending_slice_0: "descending rs \<Longrightarrow> descending (slice_0 rs e)"
proof -
  assume d: "descending rs"
  obtain n where "slice_0 rs e = take n rs" using slice_0_take by blast
  with d show ?thesis by (simp add: descending_take)
qed

lemma set_vectorSearch_subset:
  "set (vectorSearch db q limit m) \<subseteq> set (scan_rows q m (memories db))"
  using set_slice_0_subset [of "sort_desc (scan_rows q m (memories db))" limit]
  by (simp add: vectorSearch_def)


lemma descending_vectorSearch: "descending (vectorSearch db q limit m)"
  by (simp add: vectorSearch_def descending_slice_0 descending_sort_desc no_nan_scan_rows)

lemma at_most_mono: "n \<le> k \<Longrightarrow> at_most k limit \<Longrightarrow> at_most n limit"
  by (cases "value_of limit") (simp_all add: at_most_def)

lemma vectorSearch_all:
  assumes "at_most (length (memories db)) limit"
  shows "vectorSearch db q limit m = sort_desc (scan_rows q m (memories db))"
proof -
  have "at_most (length (sort_desc (scan_rows q m (memories db)))) limit"
    using length_scan_rows [of q m "memories db"] assms by (simp add: at_most_mono)
  then show ?thesis by (simp add: vectorSearch_def slice_0_all)
qed

lemma vectorSearch_negative:
  assumes "value_of limit = Finite x" and "x \<le> - 1"
  shows "vectorSearch db q limit m =
     take (nat (int (length (scan_rows q m (memories db))) + \<lceil>x\<rceil>))
       (sort_desc (scan_rows q m (memories db)))"
proof -
  have c: "\<lceil>x\<rceil> < 0" using assms(2) by (simp add: ceiling_less_iff)
  have x: "x < 0" using assms(2) by simp
  have "nat (max (int (length (scan_rows q m (memories db))) + \<lceil>x\<rceil>) 0)
      = nat (int (length (scan_rows q m (memories db))) + \<lceil>x\<rceil>)"
    by (simp add: max_def)
  then show ?thesis
    using assms(1) c x by (simp add: vectorSearch_def slice_0_def Let_def)
qed

lemma candidate_encoded:
  "row_embedding row = Some (encodeEmbedding stored) \<Longrightarrow>
     candidate q m row =
       (if fge (cosineSimilarity q stored) m
        then Some \<lparr>entry = row_entry row stored, score = cosineSimilarity q stored\<rparr>
        else None)"
  by (simp add: candidate_def decode_encode)

lemmas comparisons = fge_def fgt_def is_nan_def at_most_def example_numbers pattern_values

lemma scan_example:
  "scan_rows query_x d_0_3 (memories example_db) =
     [\<lparr>entry = row_entry memory_a [f2, f4, f2, f1], score = d_0_4\<rparr>,
      \<lparr>entry = row_entry memory_b [f3, f4, f0, f0], score = d_0_6\<rparr>]"
proof -
  have "fge d_0_4 d_0_3" "fge d_0_6 d_0_3" by (simp_all add: comparisons)
  then show ?thesis
    by (simp add: scan_rows_candidate map_filter_simps example_db_def
      candidate_encoded [of memory_a "[f2, f4, f2, f1]"]
      candidate_encoded [of memory_b "[f3, f4, f0, f0]"]
      memory_a_def [THEN arg_cong [of _ _ row_embedding]]
      memory_b_def [THEN arg_cong [of _ _ row_embedding]]
      query_x_def cosine_examples)
qed

lemma sort_example:
  "sort_desc
     [\<lparr>entry = ea, score = d_0_4\<rparr>, \<lparr>entry = eb, score = d_0_6\<rparr>] =
     [\<lparr>entry = eb, score = d_0_6\<rparr>, \<lparr>entry = ea, score = d_0_4\<rparr>]"
proof -
  have "\<not> is_nan d_0_4" "\<not> is_nan d_0_6" "fgt d_0_6 d_0_4" by (simp_all add: comparisons)
  then show ?thesis
    by (simp add: sort_desc_def js_sort_def by_score_positive)
qed

lemma ceiling_minus_1: "\<lceil>- 1 :: real\<rceil> = - 1"
  by (rule ceiling_unique) simp_all

lemma slice_examples:
  "slice_0 [x, y] f5 = [x, y]" "slice_0 [x, y] 0x4024000000000000 = [x, y]"
  "slice_0 [x, y] minus_1 = [x]"
  by (simp_all add: slice_0_def example_numbers pattern_values ceiling_minus_1)

lemma search_example:
  "vectorSearch example_db query_x f5 d_0_3 =
     [\<lparr>entry = row_entry memory_b [f3, f4, f0, f0], score = d_0_6\<rparr>,
      \<lparr>entry = row_entry memory_a [f2, f4, f2, f1], score = d_0_4\<rparr>]"
  "vectorSearch example_db query_x 0x4024000000000000 d_0_3 =
     [\<lparr>entry = row_entry memory_b [f3, f4, f0, f0], score = d_0_6\<rparr>,
      \<lparr>entry = row_entry memory_a [f2, f4, f2, f1], score = d_0_4\<rparr>]"
  "vectorSearch example_db query_x minus_1 d_0_3 =
     [\<lparr>entry = row_entry memory_b [f3, f4, f0, f0], score = d_0_6\<rparr>]"
  by (simp_all add: vectorSearch_def scan_example sort_example slice_examples)

lemma categories_example:
  "category (row_entry memory_a v) = ''preference''"
  "category (row_entry memory_b v) = ''decision''"
  "entry_id (row_entry memory_a v) = id_a"
  "entry_id (row_entry memory_b v) = id_b"
  by (simp_all add: row_entry_def memory_a_def memory_b_def)

text \<open>
  Claim C2, as amended. The results of \<^verbatim>\<open>vectorSearch\<close> are in descending order of
  score and none scores below \<open>minScore\<close>; for a \<open>limit\<close> of at least 0 there are at most
  \<open>limit\<close> of them, and for a \<open>limit\<close> of at least the number of rows every row that reaches
  \<open>minScore\<close> is among them; for a \<open>limit\<close> of -1 or less the sorted results are cut from
  the end instead. The search is a total function of the table: rows without an
  embedding and rows whose blob does not decode raise nothing and change nothing, the
  results are those of the table without them, and every result comes from a row that is
  indexed.
\<close>

theorem vectorSearch_sorted_bounded:
  "descending (vectorSearch db q limit minScore)
   \<and> (fge limit double_0 \<longrightarrow> at_most (length (vectorSearch db q limit minScore)) limit)
   \<and> list_all (\<lambda>r. fge (score r) minScore) (vectorSearch db q limit minScore)
   \<and> vectorSearch db q limit minScore
       = vectorSearch (db\<lparr>memories := filter indexed (memories db)\<rparr>) q limit minScore
   \<and> list_all (\<lambda>r. entry_id (entry r) \<in> set (map row_id (filter indexed (memories db))))
        (vectorSearch db q limit minScore)
   \<and> (at_most (length (memories db)) limit \<longrightarrow>
        set (vectorSearch db q limit minScore)
          = set (List.map_filter (candidate q minScore) (memories db)))
   \<and> (value_of limit = Finite x \<and> x \<le> - 1 \<longrightarrow>
        vectorSearch db q limit minScore
          = take (nat (int (length (scan_rows q minScore (memories db))) + \<lceil>x\<rceil>))
              (sort_desc (scan_rows q minScore (memories db))))"
proof -
  let ?rs = "vectorSearch db q limit minScore"
  have a: "descending ?rs"
    by (rule descending_vectorSearch)
  have b: "fge limit double_0 \<longrightarrow> at_most (length ?rs) limit"
    by (simp add: vectorSearch_def length_slice_0)
  have c: "list_all (\<lambda>r. fge (score r) minScore) ?rs"
    using set_vectorSearch_subset [of db q limit minScore] scores_scan_rows [of minScore q "memories db"]
    by (auto simp: list_all_iff)
  have d: "?rs = vectorSearch (db\<lparr>memories := filter indexed (memories db)\<rparr>) q limit minScore"
    by (simp add: vectorSearch_def scan_rows_indexed)
  have e: "list_all (\<lambda>r. entry_id (entry r) \<in> set (map row_id (filter indexed (memories db)))) ?rs"
  proof -
    have "entry_id (entry r) \<in> set (map row_id (filter indexed (memories db)))"
      if "r \<in> set ?rs" for r
    proof -
      from that set_vectorSearch_subset [of db q limit minScore]
      have "r \<in> set (scan_rows q minScore (memories db))" by blast
      then obtain row where row: "row \<in> set (memories db)" "candidate q minScore row = Some r"
        by (auto simp: in_scan_rows)
      from candidate_SomeD [OF row(2)] row(1) show ?thesis
        by (auto intro!: image_eqI [of _ _ row])
    qed
    then show ?thesis by (simp add: list_all_iff)
  qed
  have f: "at_most (length (memories db)) limit \<longrightarrow>
      set ?rs = set (List.map_filter (candidate q minScore) (memories db))"
    by (simp add: vectorSearch_all scan_rows_candidate)
  have g: "value_of limit = Finite x \<and> x \<le> - 1 \<longrightarrow>
      ?rs = take (nat (int (length (scan_rows q minScore (memories db))) + \<lceil>x\<rceil>))
              (sort_desc (scan_rows q minScore (memories db)))"
    using vectorSearch_negative [of limit x db q minScore] by blast
  from a b c d e f g show ?thesis by blast
qed

theorem vectorSearch_sorted_bounded_witness:
  "fge f5 double_0 \<and> at_most (length (memories example_db)) f5
   \<and> at_most (length (vectorSearch example_db query_x f5 d_0_3)) f5
   \<and> set (vectorSearch example_db query_x f5 d_0_3)
       = set (List.map_filter (candidate query_x d_0_3) (memories example_db))
   \<and> map (\<lambda>r. (entry_id (entry r), score r)) (vectorSearch example_db query_x f5 d_0_3)
       = [(id_b, d_0_6), (id_a, d_0_4)]
   \<and> value_of minus_1 = Finite (- 1)
   \<and> vectorSearch example_db query_x minus_1 d_0_3
       = take (nat (int (length (scan_rows query_x d_0_3 (memories example_db))) + \<lceil>- 1 :: real\<rceil>))
           (sort_desc (scan_rows query_x d_0_3 (memories example_db)))"
proof -
  have h: "fge f5 double_0" "at_most (length (memories example_db)) f5"
    by (simp_all add: comparisons example_db_def)
  have v: "value_of minus_1 = Finite (- 1)" by (simp add: comparisons)
  have n: "vectorSearch example_db query_x minus_1 d_0_3
       = take (nat (int (length (scan_rows query_x d_0_3 (memories example_db))) + \<lceil>- 1 :: real\<rceil>))
           (sort_desc (scan_rows query_x d_0_3 (memories example_db)))"
    using vectorSearch_sorted_bounded [of example_db query_x minus_1 d_0_3 "- 1"] v by blast
  have r: "map (\<lambda>r. (entry_id (entry r), score r)) (vectorSearch example_db query_x f5 d_0_3)
       = [(id_b, d_0_6), (id_a, d_0_4)]"
    by (simp add: search_example categories_example)
  from vectorSearch_sorted_bounded [of example_db query_x f5 d_0_3 0] h r v n
  show ?thesis by blast
qed

text \<open>
  A negative \<open>limit\<close> does not bound the number of results: \<^verbatim>\<open>slice(0, -1)\<close> keeps all
  results but the last, so that a search with limit -1 returns one result of two.
\<close>

theorem vectorSearch_negative_limit_counterexample:
  "map (\<lambda>r. (entry_id (entry r), score r)) (vectorSearch example_db query_x minus_1 d_0_3)
     = [(id_b, d_0_6)]
   \<and> length (vectorSearch example_db query_x minus_1 d_0_3) = 1
   \<and> \<not> at_most (length (vectorSearch example_db query_x minus_1 d_0_3)) minus_1"
proof -
  have "\<not> at_most (Suc 0) minus_1" by (simp add: comparisons)
  then show ?thesis by (simp add: search_example categories_example)
qed

section \<open>The provider chain\<close>

lemma length_reconcile: "length (reconcile d vec) = d"
  by (simp add: reconcile_def)

lemma embed_error_all_failed:
  "embed e text = Inl err \<Longrightarrow>
     unavailable (primary e) text \<and> unavailable (fallback e) text \<and> unavailable (default_provider e) text"
  by (auto simp: embed_def embed_fallback_def embed_default_def unavailable_def
      split: option.splits sum.splits)

lemma embed_primary_failed:
  "unavailable (primary e) text \<Longrightarrow> embed e text = embed (e\<lparr>primary := None\<rparr>) text"
  by (auto simp: embed_def embed_fallback_def embed_default_def unavailable_def
      split: option.splits sum.splits)

lemma embed_fallback_answers:
  "unavailable (primary e) text \<Longrightarrow> fallback e = Some f \<Longrightarrow> f text = Inr vec \<Longrightarrow>
     embed e text = Inr (reconcile (dimension e) vec)"
  by (auto simp: embed_def embed_fallback_def unavailable_def split: option.splits sum.splits)

lemma embed_all_unavailable:
  "unavailable (primary e) text \<Longrightarrow> unavailable (fallback e) text \<Longrightarrow>
     unavailable (default_provider e) text \<Longrightarrow> isl (embed e text)"
  by (auto simp: embed_def embed_fallback_def embed_default_def unavailable_def
      split: option.splits sum.splits)

text \<open>
  Claim C5. \<^verbatim>\<open>embed\<close> fails only when every provider that is configured has failed
  (and it does fail then). A failure of the primary provider is not passed on: the result
  is that of the chain without the primary provider. When the chain reaches the fallback
  provider and it answers, the result is its vector brought to the configured dimension:
  zeros appended when it is shorter, the first \<open>dimension\<close> elements when it is not.
\<close>

theorem embed_chain:
  "(embed e text = Inl err \<longrightarrow>
      unavailable (primary e) text \<and> unavailable (fallback e) text
      \<and> unavailable (default_provider e) text)
   \<and> (unavailable (primary e) text \<and> unavailable (fallback e) text
        \<and> unavailable (default_provider e) text \<longrightarrow> isl (embed e text))
   \<and> (unavailable (primary e) text \<longrightarrow> embed e text = embed (e\<lparr>primary := None\<rparr>) text)
   \<and> (unavailable (primary e) text \<and> fallback e = Some f \<and> f text = Inr vec \<longrightarrow>
        embed e text = Inr (reconcile (dimension e) vec)
        \<and> length (reconcile (dimension e) vec) = dimension e
        \<and> (length vec < dimension e \<longrightarrow>
             reconcile (dimension e) vec = vec @ replicate (dimension e - length vec) 0)
        \<and> (dimension e \<le> length vec \<longrightarrow> reconcile (dimension e) vec = take (dimension e) vec))"
proof -
  have pad: "length vec < dimension e \<longrightarrow>
      reconcile (dimension e) vec = vec @ replicate (dimension e - length vec) 0"
    by (simp add: reconcile_def)
  have cut: "dimension e \<le> length vec \<longrightarrow> reconcile (dimension e) vec = take (dimension e) vec"
    by (simp add: reconcile_def)
  show ?thesis
    using embed_error_all_failed [of e "text" err] embed_primary_failed [of e "text"]
      embed_all_unavailable [of e "text"]
      embed_fallback_answers [of e "text" f vec] length_reconcile [of "dimension e" vec] pad cut
    by blast
qed

theorem embed_chain_witness:
  "unavailable (Some rejecting) ''text''
   \<and> embed \<lparr>primary = Some rejecting, fallback = Some rejecting,
            default_provider = Some rejecting, dimension = 4\<rparr> ''text''
       = Inl (AllProvidersFailed (ProviderError ''429 rate limit''))
   \<and> two_dim ''text'' = Inr [f1, f2]
   \<and> embed \<lparr>primary = Some rejecting, fallback = Some two_dim,
            default_provider = Some rejecting, dimension = 4\<rparr> ''text''
       = Inr [f1, f2, 0, 0]
   \<and> five_dim ''text'' = Inr [f1, f2, f3, f4, f1]
   \<and> embed \<lparr>primary = Some rejecting, fallback = Some five_dim,
            default_provider = Some rejecting, dimension = 4\<rparr> ''text''
       = Inr [f1, f2, f3, f4]"
proof -
  let ?e0 = "\<lparr>primary = Some rejecting, fallback = Some rejecting,
          default_provider = Some rejecting, dimension = 4\<rparr>"
  let ?e1 = "\<lparr>primary = Some rejecting, fallback = Some two_dim,
          default_provider = Some rejecting, dimension = 4\<rparr>"
  let ?e2 = "\<lparr>primary = Some rejecting, fallback = Some five_dim,
          default_provider = Some rejecting, dimension = 4\<rparr>"
  have rej: "unavailable (Some rejecting) ''text''"
    by (simp add: unavailable_def rejecting_def)
  have a: "embed ?e0 ''text'' = Inl (AllProvidersFailed (ProviderError ''429 rate limit''))"
    by (simp add: embed_def embed_fallback_def embed_default_def rejecting_def)
  note t0 = embed_chain [of ?e0 "''text''" "AllProvidersFailed (ProviderError ''429 rate limit'')"]
  note t1 = embed_chain [of ?e1 "''text''" _ two_dim "[f1, f2]"]
  note t2 = embed_chain [of ?e2 "''text''" _ five_dim "[f1, f2, f3, f4, f1]"]
  have r1: "reconcile 4 [f1, f2] = [f1, f2, 0, 0]"
    by (simp add: reconcile_def numeral_eq_Suc)
  have r2: "reconcile 4 [f1, f2, f3, f4, f1] = [f1, f2, f3, f4]"
    by (simp add: reconcile_def)
  have two: "two_dim ''text'' = Inr [f1, f2]"
    by (simp add: two_dim_def)
  have five: "five_dim ''text'' = Inr [f1, f2, f3, f4, f1]"
    by (simp add: five_dim_def)
  have h1: "unavailable (primary ?e1) ''text'' \<and> fallback ?e1 = Some two_dim
      \<and> two_dim ''text'' = Inr [f1, f2]"
    using rej two by simp
  with t1 have "embed ?e1 ''text'' = Inr (reconcile (dimension ?e1) [f1, f2])"
    by blast
  then have b: "embed ?e1 ''text'' = Inr [f1, f2, 0, 0]"
    by (simp add: r1)
  have h2: "unavailable (primary ?e2) ''text'' \<and> fallback ?e2 = Some five_dim
      \<and> five_dim ''text'' = Inr [f1, f2, f3, f4, f1]"
    using rej five by simp
  with t2 have "embed ?e2 ''text'' = Inr (reconcile (dimension ?e2) [f1, f2, f3, f4, f1])"
    by blast
  then have c: "embed ?e2 ''text'' = Inr [f1, f2, f3, f4]"
    by (simp add: r2)
  from a t0 have "unavailable (primary ?e0) ''text'' \<and> unavailable (fallback ?e0) ''text''"
    by blast
  with rej a two b five c show ?thesis by blast
qed

section \<open>Lazy initialisation of the local provider\<close>

lemma in_flight_SomeD:
  "in_flight t = Some p \<Longrightarrow> initPromise t = Some p \<and> p < length (promises t) \<and> promises t ! p = Pending"
  by (auto simp: in_flight_def split: option.splits if_splits)

text \<open>Callers that arrive while a load is in flight get the promise of that load.\<close>

lemma ensureInitialized_in_flight:
  "\<not> extractor t \<Longrightarrow> in_flight t = Some p \<Longrightarrow> ensureInitialized t = (Awaits p, t)"
  by (auto simp: ensureInitialized_def dest: in_flight_SomeD)

lemma ensureInitialized_loaded: "extractor t \<Longrightarrow> ensureInitialized t = (Done, t)"
  by (simp add: ensureInitialized_def)

text \<open>With the handler, a call after a failed load starts a new load.\<close>

lemma ensureInitialized_retries:
  assumes "\<not> extractor t" and "in_flight t = Some p"
  shows "initPromise (load_fails p t) = None"
    and "fst (ensureInitialized (load_fails p t)) = Awaits (length (promises t))"
    and "in_flight (snd (ensureInitialized (load_fails p t))) = Some (length (promises t))"
    and "length (promises t) \<noteq> p"
proof -
  from assms(2) have ip: "initPromise t = Some p" and lt: "p < length (promises t)"
    by (auto dest: in_flight_SomeD)
  show "initPromise (load_fails p t) = None"
    by (simp add: load_fails_def)
  show "fst (ensureInitialized (load_fails p t)) = Awaits (length (promises t))"
    using assms(1) by (simp add: ensureInitialized_def load_fails_def)
  show "in_flight (snd (ensureInitialized (load_fails p t))) = Some (length (promises t))"
    using assms(1) by (simp add: ensureInitialized_def load_fails_def in_flight_def nth_append)
  show "length (promises t) \<noteq> p"
    using lt by simp
qed

text \<open>Without it, every later call is handed the rejected promise and nothing is loaded.\<close>

lemma ensureInitialized_unguarded_stuck:
  assumes "\<not> extractor t" and "in_flight t = Some p"
  shows "ensureInitialized (load_fails_unguarded p t) = (Awaits p, load_fails_unguarded p t)"
    and "promises (load_fails_unguarded p t) ! p = Rejected"
    and "in_flight (load_fails_unguarded p t) = None"
proof -
  from assms(2) have ip: "initPromise t = Some p" and lt: "p < length (promises t)"
    by (auto dest: in_flight_SomeD)
  show "ensureInitialized (load_fails_unguarded p t) = (Awaits p, load_fails_unguarded p t)"
    using assms(1) ip by (simp add: ensureInitialized_def load_fails_unguarded_def)
  show "promises (load_fails_unguarded p t) ! p = Rejected"
    using lt by (simp add: load_fails_unguarded_def)
  show "in_flight (load_fails_unguarded p t) = None"
    using ip lt by (simp add: in_flight_def load_fails_unguarded_def)
qed

lemma count_update_new:
  "p < length xs \<Longrightarrow> \<not> P (xs ! p) \<Longrightarrow> P y \<Longrightarrow>
     length (filter P (xs[p := y])) = Suc (length (filter P xs))"
proof (induction xs arbitrary: p)
  case Nil
  then show ?case by simp
next
  case (Cons x xs)
  then show ?case by (cases p) auto
qed

lemma count_update_same:
  "p < length xs \<Longrightarrow> \<not> P (xs ! p) \<Longrightarrow> \<not> P y \<Longrightarrow>
     length (filter P (xs[p := y])) = length (filter P xs)"
proof (induction xs arbitrary: p)
  case Nil
  then show ?case by simp
next
  case (Cons x xs)
  then show ?case by (cases p) auto
qed

lemma load_invariant_new: "load_invariant new_provider"
  by (simp add: load_invariant_def new_provider_def successful_loads_def)

lemma load_invariant_call: "load_invariant t \<Longrightarrow> load_invariant (snd (ensureInitialized t))"
  by (auto simp: load_invariant_def ensureInitialized_def successful_loads_def
      split: option.splits)

lemma load_invariant_succeeds:
  "load_invariant t \<Longrightarrow> in_flight t = Some p \<Longrightarrow> load_invariant (load_succeeds p t)"
  by (auto simp: load_invariant_def load_succeeds_def successful_loads_def in_flight_def
      count_update_new split: option.splits if_splits)

lemma load_invariant_fails:
  assumes "load_invariant t" and "in_flight t = Some p"
  shows "load_invariant (load_fails p t)"
proof -
  from assms(2) have lt: "p < length (promises t)" and pend: "promises t ! p = Pending"
    by (auto dest: in_flight_SomeD)
  from assms have idle: "\<not> extractor t"
    by (auto simp: load_invariant_def)
  have "successful_loads (load_fails p t) = successful_loads t"
    using lt pend by (simp add: successful_loads_def load_fails_def count_update_same)
  with assms(1) idle show ?thesis
    by (simp add: load_invariant_def load_fails_def)
qed

lemma load_invariant_fails_unguarded:
  assumes "load_invariant t" and "in_flight t = Some p"
  shows "load_invariant (load_fails_unguarded p t)"
proof -
  from assms(2) have lt: "p < length (promises t)" and pend: "promises t ! p = Pending"
    by (auto dest: in_flight_SomeD)
  from assms have idle: "\<not> extractor t"
    by (auto simp: load_invariant_def)
  have "successful_loads (load_fails_unguarded p t) = successful_loads t"
    using lt pend by (simp add: successful_loads_def load_fails_unguarded_def count_update_same)
  with assms(1) idle show ?thesis
    by (simp add: load_invariant_def load_fails_unguarded_def)
qed

lemma load_invariant_step: "load_invariant t \<Longrightarrow> load_invariant (step ev t)"
  by (cases ev)
    (auto simp: load_invariant_call load_invariant_succeeds load_invariant_fails
      split: option.splits)

lemma load_invariant_step_unguarded: "load_invariant t \<Longrightarrow> load_invariant (step_unguarded ev t)"
  by (cases ev)
    (auto simp: load_invariant_call load_invariant_succeeds load_invariant_fails_unguarded
      split: option.splits)

lemma load_invariant_run: "load_invariant t \<Longrightarrow> load_invariant (run evs t)"
  unfolding run_def by (induction evs arbitrary: t) (simp_all add: load_invariant_step)

lemma load_invariant_run_unguarded: "load_invariant t \<Longrightarrow> load_invariant (run_unguarded evs t)"
  unfolding run_unguarded_def
  by (induction evs arbitrary: t) (simp_all add: load_invariant_step_unguarded)

text \<open>In every run of either variant the model is loaded at most once.\<close>

lemma at_most_one_successful_load:
  "successful_loads (run evs new_provider) \<le> 1"
  "successful_loads (run_unguarded evs new_provider) \<le> 1"
  using load_invariant_run [OF load_invariant_new, of evs]
    load_invariant_run_unguarded [OF load_invariant_new, of evs]
  by (simp_all add: load_invariant_def split: if_splits)

lemma run_retry:
  "run [Call, Load_error] new_provider = \<lparr>extractor = False, initPromise = None, promises = [Rejected]\<rparr>"
  "ensureInitialized (run [Call, Load_error] new_provider) =
     (Awaits 1, \<lparr>extractor = False, initPromise = Some 1, promises = [Rejected, Pending]\<rparr>)"
  "extractor (run [Call, Load_error, Call, Load_ok] new_provider)"
  by (simp_all add: run_def new_provider_def ensureInitialized_def in_flight_def load_fails_def load_succeeds_def)

text \<open>
  Claim C4. In the variant of the file without the handler the claim does not hold: after a
  load has failed, \<open>initPromise\<close> still holds the rejected promise, a later call is handed
  that promise and starts no load, and the state never changes again, whatever follows.
\<close>

theorem ensureInitialized_unguarded_poisoned:
  "run_unguarded [Call, Load_error] new_provider
     = \<lparr>extractor = False, initPromise = Some 0, promises = [Rejected]\<rparr>
   \<and> ensureInitialized (run_unguarded [Call, Load_error] new_provider)
     = (Awaits 0, run_unguarded [Call, Load_error] new_provider)
   \<and> run_unguarded [Call, Load_error, Call, Load_ok, Call] new_provider
     = run_unguarded [Call, Load_error] new_provider"
  by (simp add: run_unguarded_def new_provider_def ensureInitialized_def in_flight_def
      load_fails_unguarded_def load_succeeds_def)

section \<open>Deleting memories\<close>

lemma memory_edges_delete_edges_of [simp]:
  "memory_edges (delete_edges_of i db) = filter (\<lambda>e. from_id e \<noteq> i \<and> to_id e \<noteq> i) (memory_edges db)"
  by (simp add: delete_edges_of_def)

lemma memories_delete_edges_of [simp]: "memories (delete_edges_of i db) = memories db"
  by (simp add: delete_edges_of_def)

lemma memories_fold_delete_edges_of [simp]:
  "memories (fold delete_edges_of ids db) = memories db"
  by (induction ids arbitrary: db) simp_all

lemma memory_edges_fold_delete_edges_of:
  "memory_edges (fold delete_edges_of ids db) =
     filter (\<lambda>e. from_id e \<notin> set ids \<and> to_id e \<notin> set ids) (memory_edges db)"
proof (induction ids arbitrary: db)
  case Nil
  show ?case by simp
next
  case (Cons i ids)
  show ?case
    by (simp add: Cons.IH) (rule filter_cong, auto)
qed

lemma memories_delete_memories:
  "memories (fst (delete_memories P db)) = filter (\<lambda>row. \<not> P row) (memories db)"
  by (simp add: delete_memories_def Let_def)

lemma memory_edges_delete_memories:
  "memory_edges (fst (delete_memories P db)) =
     filter (\<lambda>e. from_id e \<notin> row_id ` {row \<in> set (memories db). P row}
               \<and> to_id e \<notin> row_id ` {row \<in> set (memories db). P row}) (memory_edges db)"
  by (simp add: delete_memories_def Let_def)

lemma memory_edges_delete:
  "uuid_shape i \<Longrightarrow>
     memory_edges (snd (delete i db)) = filter (\<lambda>e. from_id e \<noteq> i \<and> to_id e \<noteq> i) (memory_edges db)"
  by (auto simp: delete_def memory_edges_delete_memories intro!: filter_cong)

lemma memories_delete:
  "uuid_shape i \<Longrightarrow> memories (snd (delete i db)) = filter (\<lambda>row. row_id row \<noteq> i) (memories db)"
  by (simp add: delete_def memories_delete_memories)

lemma delete_malformed: "\<not> uuid_shape i \<Longrightarrow> delete i db = (Inl (InvalidMemoryId i), db)"
  by (simp add: delete_def)

lemma edges_intact_delete: "edges_intact db \<Longrightarrow> edges_intact (snd (delete i db))"
proof (cases "uuid_shape i")
  case False
  assume "edges_intact db"
  with False show ?thesis by (simp add: delete_malformed)
next
  case True
  assume "edges_intact db"
  with True show ?thesis
    by (auto simp: edges_intact_def memory_ids_def memory_edges_delete memories_delete list_all_iff)
qed

lemma memory_edges_deleteBySource:
  "memory_edges (snd (deleteBySource src db)) =
     filter (\<lambda>e. from_id e \<notin> row_id ` {row \<in> set (memories db). row_source row = src}
               \<and> to_id e \<notin> row_id ` {row \<in> set (memories db). row_source row = src})
       (memory_edges db)"
  by (auto simp: deleteBySource_def Let_def split_beta memory_edges_delete_memories
        memory_edges_fold_delete_edges_of intro!: filter_cong)

lemma memories_deleteBySource:
  "memories (snd (deleteBySource src db)) = filter (\<lambda>row. row_source row \<noteq> src) (memories db)"
  by (simp add: deleteBySource_def Let_def split_beta memories_delete_memories)

lemma edges_intact_deleteBySource:
  "edges_intact db \<Longrightarrow> edges_intact (snd (deleteBySource src db))"
proof -
  assume intact: "edges_intact db"
  let ?gone = "row_id ` {row \<in> set (memories db). row_source row = src}"
  let ?kept = "row_id ` {row \<in> set (memories db). row_source row \<noteq> src}"
  have kept: "x \<in> ?kept" if "x \<in> memory_ids db" and "x \<notin> ?gone" for x
    using that by (auto simp: memory_ids_def)
  have ids: "memory_ids (snd (deleteBySource src db)) = ?kept"
    by (simp add: memory_ids_def memories_deleteBySource)
  show ?thesis
    using intact kept
    by (simp add: edges_intact_def ids memory_edges_deleteBySource list_all_iff)
qed

lemma edges_of_delete: "uuid_shape i \<Longrightarrow> edges_of i (snd (delete i db)) = []"
  by (auto simp: edges_of_def memory_edges_delete filter_empty_conv)

lemma edges_of_deleteBySource:
  "row \<in> set (memories db) \<Longrightarrow> row_source row = src \<Longrightarrow>
     edges_of (row_id row) (snd (deleteBySource src db)) = []"
  by (auto simp: edges_of_def memory_edges_deleteBySource filter_empty_conv)

lemma uuid_shape_examples: "uuid_shape id_a" "uuid_shape id_b" "uuid_shape id_c"
  by (simp_all add: uuid_shape_def id_a_def id_b_def id_c_def hex_digit_def)

lemma not_uuid_shape_examples:
  "\<not> uuid_shape ''not-a-uuid''"
  "\<not> uuid_shape ''1b4e28ba-2fa1-41d2-883f-0016d3cca42''"
  "\<not> uuid_shape ''1b4e28ba-2fa1-41d2-883f-0016d3cca427 ''"
  "\<not> uuid_shape ''1b4e28ba_2fa1_41d2_883f_0016d3cca427''"
  "\<not> uuid_shape ''1b4e28bg-2fa1-41d2-883f-0016d3cca427''"
  by (simp_all add: uuid_shape_def hex_digit_def)

lemma ids_differ: "id_a \<noteq> id_b" "id_a \<noteq> id_c" "id_b \<noteq> id_c"
  by (simp_all add: id_a_def id_b_def id_c_def)

lemma edges_intact_example: "edges_intact example_db"
  by (simp add: edges_intact_def memory_ids_def example_db_def memory_a_def memory_b_def edge_ab_def)

text \<open>
  Claim C6. For an identifier that does not have the shape the pattern tests,
  \<^verbatim>\<open>delete\<close> fails with the validation error and both tables are as before.
\<close>

theorem delete_malformed_id:
  "\<not> uuid_shape i \<Longrightarrow>
     fst (delete i db) = Inl (InvalidMemoryId i)
     \<and> memories (snd (delete i db)) = memories db
     \<and> memory_edges (snd (delete i db)) = memory_edges db"
  by (simp add: delete_malformed)

theorem delete_malformed_id_witness:
  "\<not> uuid_shape ''not-a-uuid''
   \<and> fst (delete ''not-a-uuid'' example_db) = Inl (InvalidMemoryId ''not-a-uuid'')
   \<and> memories (snd (delete ''not-a-uuid'' example_db)) = [memory_a, memory_b]
   \<and> memory_edges (snd (delete ''not-a-uuid'' example_db)) = [edge_ab]"
  using delete_malformed_id [of "''not-a-uuid''" example_db] not_uuid_shape_examples(1)
  by (simp add: example_db_def)

lemma delete_absent:
  assumes "uuid_shape i" and "i \<notin> memory_ids db" and "edges_intact db"
  shows "snd (delete i db) = db"
proof -
  have rows: "filter (\<lambda>row. row_id row \<noteq> i) (memories db) = memories db"
    using assms(2) by (auto simp: memory_ids_def filter_id_conv)
  have edges: "filter (\<lambda>e. from_id e \<noteq> i \<and> to_id e \<noteq> i) (memory_edges db) = memory_edges db"
    using assms(2,3) by (auto simp: edges_intact_def list_all_iff filter_id_conv)
  have "memories (snd (delete i db)) = memories db"
    and "memory_edges (snd (delete i db)) = memory_edges db"
    using assms(1) rows edges by (simp_all add: memories_delete memory_edges_delete)
  then show ?thesis by simp
qed

text \<open>
  Claim C10. For an identifier of the right shape \<^verbatim>\<open>delete\<close> returns
  \<^verbatim>\<open>true\<close> and raises nothing, whether a memory has that identifier or not; when none
  has, the table of memories is as before, and the whole database is when its edges are
  intact.
\<close>

theorem delete_wellformed_returns_true:
  "uuid_shape i \<Longrightarrow>
     fst (delete i db) = Inr True
     \<and> (i \<notin> memory_ids db \<longrightarrow> memories (snd (delete i db)) = memories db)
     \<and> (i \<notin> memory_ids db \<and> edges_intact db \<longrightarrow> snd (delete i db) = db)"
proof -
  assume shape: "uuid_shape i"
  have "filter (\<lambda>row. row_id row \<noteq> i) (memories db) = memories db" if "i \<notin> memory_ids db"
    using that by (auto simp: memory_ids_def filter_id_conv)
  then have rows: "i \<notin> memory_ids db \<longrightarrow> memories (snd (delete i db)) = memories db"
    using shape by (simp add: memories_delete)
  have "fst (delete i db) = Inr True"
    using shape by (simp add: delete_def)
  with rows delete_absent [OF shape] show ?thesis by blast
qed

theorem delete_wellformed_returns_true_witness:
  "uuid_shape id_c \<and> id_c \<notin> memory_ids example_db \<and> edges_intact example_db
   \<and> fst (delete id_c example_db) = Inr True
   \<and> snd (delete id_c example_db) = example_db
   \<and> uuid_shape id_a \<and> id_a \<in> memory_ids example_db
   \<and> fst (delete id_a example_db) = Inr True"
proof -
  have absent: "id_c \<notin> memory_ids example_db" and present: "id_a \<in> memory_ids example_db"
    using ids_differ
    by (auto simp: memory_ids_def example_db_def memory_a_def memory_b_def)
  with delete_wellformed_returns_true [of id_c example_db]
    delete_wellformed_returns_true [of id_a example_db] uuid_shape_examples
    edges_intact_example
  show ?thesis by simp
qed

text \<open>
  Claim C7. For the identifier of a memory, which has the shape of a UUID,
  \<^verbatim>\<open>delete\<close> removes exactly the edges that start or end at it;
  \<^verbatim>\<open>deleteBySource\<close> leaves no edge at the identifier of a memory it removes; and both
  keep the edges intact, for every argument: after them every edge still joins two memories
  of the table.
\<close>

theorem delete_cascades_edges:
  "(uuid_shape i \<longrightarrow>
      edges_of i (snd (delete i db)) = []
      \<and> memory_edges (snd (delete i db))
          = filter (\<lambda>e. from_id e \<noteq> i \<and> to_id e \<noteq> i) (memory_edges db)
      \<and> i \<notin> memory_ids (snd (delete i db)))
   \<and> (edges_intact db \<longrightarrow> edges_intact (snd (delete i db)))
   \<and> (row \<in> set (memories db) \<and> row_source row = src \<longrightarrow>
        edges_of (row_id row) (snd (deleteBySource src db)) = [])
   \<and> (edges_intact db \<longrightarrow> edges_intact (snd (deleteBySource src db)))"
proof -
  have "i \<notin> memory_ids (snd (delete i db))" if "uuid_shape i"
    using that by (auto simp: memory_ids_def memories_delete)
  then show ?thesis
    using edges_of_delete [of i db] memory_edges_delete [of i db] edges_intact_delete [of db i]
      edges_of_deleteBySource [of row db src] edges_intact_deleteBySource [of db src]
    by blast
qed

theorem delete_cascades_edges_witness:
  "uuid_shape id_a \<and> edges_intact example_db
   \<and> memory_a \<in> set (memories example_db) \<and> row_source memory_a = ''vscode:chat''
   \<and> edges_of id_a example_db = [edge_ab]
   \<and> edges_of id_a (snd (delete id_a example_db)) = []
   \<and> memory_edges (snd (delete id_a example_db)) = []
   \<and> edges_intact (snd (delete id_a example_db))
   \<and> edges_of id_a (snd (deleteBySource ''vscode:chat'' example_db)) = []
   \<and> edges_intact (snd (deleteBySource ''vscode:chat'' example_db))"
proof -
  have row: "memory_a \<in> set (memories example_db)" "row_source memory_a = ''vscode:chat''"
    "row_id memory_a = id_a"
    by (simp_all add: example_db_def memory_a_def)
  have before: "edges_of id_a example_db = [edge_ab]"
    "filter (\<lambda>e. from_id e \<noteq> id_a \<and> to_id e \<noteq> id_a) (memory_edges example_db) = []"
    by (simp_all add: edges_of_def example_db_def edge_ab_def)
  show ?thesis
    using delete_cascades_edges [of id_a example_db memory_a "''vscode:chat''"]
      uuid_shape_examples(1) edges_intact_example row before
    by simp
qed

lemma delete_cascade_idle:
  "memory_edges (fst (delete_memories (\<lambda>row. row_id row = i) (delete_edges_of i db)))
     = memory_edges (delete_edges_of i db)"
  by (auto simp: memory_edges_delete_memories intro!: filter_cong)

section \<open>Storing with deduplication\<close>

lemma vectorSearch_one:
  "vectorSearch db q double_1 m =
     (case sort_desc (scan_rows q m (memories db)) of [] \<Rightarrow> [] | r # rest \<Rightarrow> [r])"
  by (simp add: vectorSearch_def slice_0_one split: list.splits)

lemma sort_desc_head:
  assumes "sort_desc rs = r # rest" and "no_nan_scores rs"
  shows "r \<in> set rs" and "\<forall>r' \<in> set rs. fge (score r) (score r')"
proof -
  have s: "set rs = set (r # rest)"
    using assms(1) set_sort_desc [of rs] by simp
  then show "r \<in> set rs" by simp
  then have "\<not> is_nan (score r)"
    using assms(2) by (auto simp: no_nan_scores_def list_all_iff)
  then have self: "fge (score r) (score r)" by (rule fge_refl)
  have "descending (r # rest)"
    using descending_sort_desc [OF assms(2)] assms(1) by simp
  then have "\<forall>r' \<in> set rest. fge (score r) (score r')"
    by (simp add: descending_def)
  with s self show "\<forall>r' \<in> set rs. fge (score r) (score r')" by auto
qed

lemma sort_desc_Nil: "sort_desc rs = [] \<longleftrightarrow> rs = []"
  using length_sort_desc [of rs] by (metis length_0_conv)

lemma scan_rows_Nil: "scan_rows q m rows = [] \<longleftrightarrow> \<not> reaches q m rows"
proof
  assume empty: "scan_rows q m rows = []"
  show "\<not> reaches q m rows"
  proof
    assume "reaches q m rows"
    then obtain row s where "row \<in> set rows" "similarity_to q row = Some s" "fge s m"
      by (auto simp: reaches_def list_ex_iff split: option.splits)
    then obtain r where "candidate q m row = Some r"
      using candidate_SomeI by blast
    with \<open>row \<in> set rows\<close> have "r \<in> set (scan_rows q m rows)"
      by (auto simp: in_scan_rows)
    with empty show False by simp
  qed
next
  assume none: "\<not> reaches q m rows"
  have "r \<notin> set (scan_rows q m rows)" for r
  proof
    assume "r \<in> set (scan_rows q m rows)"
    then obtain row where row: "row \<in> set rows" "candidate q m row = Some r"
      by (auto simp: in_scan_rows)
    from candidate_SomeD [OF row(2)] row(1) have "reaches q m rows"
      by (auto simp: reaches_def list_ex_iff intro!: bexI [of _ row])
    with none show False by simp
  qed
  then show "scan_rows q m rows = []"
    by (cases "scan_rows q m rows") auto
qed

lemma vectorSearch_one_Nil: "vectorSearch db q double_1 m = [] \<longleftrightarrow> \<not> reaches q m (memories db)"
proof -
  have "vectorSearch db q double_1 m = [] \<longleftrightarrow> sort_desc (scan_rows q m (memories db)) = []"
    by (cases "sort_desc (scan_rows q m (memories db))") (simp_all add: vectorSearch_one)
  then show ?thesis
    by (simp add: sort_desc_Nil scan_rows_Nil)
qed

lemma vectorSearch_one_best:
  assumes "vectorSearch db q double_1 m = r # rest"
  shows "\<exists>ex \<in> set (memories db). candidate q m ex = Some r \<and> best_match q (memories db) ex (score r)"
proof -
  from assms obtain tl where sorted: "sort_desc (scan_rows q m (memories db)) = r # tl"
    by (auto simp: vectorSearch_one split: list.splits)
  from sort_desc_head [OF sorted no_nan_scan_rows]
  have mem: "r \<in> set (scan_rows q m (memories db))"
    and top: "\<forall>r' \<in> set (scan_rows q m (memories db)). fge (score r) (score r')"
    by simp_all
  from mem obtain ex where ex: "ex \<in> set (memories db)" "candidate q m ex = Some r"
    by (auto simp: in_scan_rows)
  note exD = candidate_SomeD [OF ex(2)]
  have "\<not> fgt s' (score r)" if "row \<in> set (memories db)" "similarity_to q row = Some s'" for row s'
  proof (cases "fge s' m")
    case True
    with that(2) obtain r' where "candidate q m row = Some r'" "score r' = s'"
      using candidate_SomeI by blast
    with that(1) top have "fge (score r) s'"
      by (auto simp: in_scan_rows)
    then show ?thesis by (rule fge_not_fgt)
  next
    case False
    show ?thesis
    proof
      assume "fgt s' (score r)"
      then have "fge s' (score r)" by (rule fgt_fge)
      with exD have "fge s' m" using fge_trans by blast
      with False show False by simp
    qed
  qed
  then have "best_match q (memories db) ex (score r)"
    using ex(1) exD by (auto simp: best_match_def list_all_iff split: option.splits)
  with ex show ?thesis by blast
qed

lemma update_memory_distinct:
  assumes "distinct (map row_id rows)" and "k < length rows" and "row_id (rows ! k) = i"
  shows "update_memory i c blob now src tgs cat rows =
     rows[k := \<lparr>row_id = i, row_content = c, row_embedding = Some blob, row_created_at = now,
                row_source = src, row_tags = tgs, row_category = cat\<rparr>]"
proof (rule nth_equalityI)
  show "length (update_memory i c blob now src tgs cat rows) = length (rows[k := \<lparr>row_id = i, row_content = c, row_embedding = Some blob, row_created_at = now,
                row_source = src, row_tags = tgs, row_category = cat\<rparr>])"
    by (simp add: update_memory_def)
next
  fix j assume "j < length (update_memory i c blob now src tgs cat rows)"
  then have j: "j < length rows" by (simp add: update_memory_def)
  have "row_id (rows ! j) = i \<longleftrightarrow> j = k"
    using assms j nth_eq_iff_index_eq [of "map row_id rows" j k] by auto
  then show "update_memory i c blob now src tgs cat rows ! j = rows[k := \<lparr>row_id = i, row_content = c, row_embedding = Some blob, row_created_at = now,
                row_source = src, row_tags = tgs, row_category = cat\<rparr>] ! j"
    using j assms(2,3) by (auto simp: update_memory_def nth_list_update)
qed

lemma store_duplicate:
  assumes pk: "distinct (map row_id (memories db))"
    and reach: "reaches emb (or_default (dedupeThreshold opts) double_0_95) (memories db)"
  shows "\<exists>ex s k res.
     best_match emb (memories db) ex s \<and> fge s (or_default (dedupeThreshold opts) double_0_95)
     \<and> k < length (memories db) \<and> memories db ! k = ex
     \<and> fst (store c emb opts now uuid db) = Inr res
     \<and> isDuplicate res \<and> updatedId res = Some (row_id ex)
     \<and> entry_id (stored_entry res) = row_id ex
     \<and> memories (snd (store c emb opts now uuid db))
         = (memories db)[k := overwritten ex c emb now opts]
     \<and> memory_edges (snd (store c emb opts now uuid db)) = memory_edges db
     \<and> count (snd (store c emb opts now uuid db)) = count db"
proof -
  let ?thr = "or_default (dedupeThreshold opts) double_0_95"
  from reach have "vectorSearch db emb double_1 ?thr \<noteq> []"
    by (simp add: vectorSearch_one_Nil)
  then obtain r rest where found: "vectorSearch db emb double_1 ?thr = r # rest"
    by (cases "vectorSearch db emb double_1 ?thr") auto
  from vectorSearch_one_best [OF found]
  obtain ex where ex: "ex \<in> set (memories db)" "candidate emb ?thr ex = Some r"
    "best_match emb (memories db) ex (score r)"
    by blast
  note exD = candidate_SomeD [OF ex(2)]
  from ex(1) obtain k where k: "k < length (memories db)" "memories db ! k = ex"
    by (auto simp: in_set_conv_nth)
  let ?res = "\<lparr>stored_entry = (entry r)\<lparr>content := c, embedding := emb, created_at := now\<rparr>,
      isDuplicate = True, updatedId = Some (entry_id (entry r))\<rparr>"
  let ?db' = "db\<lparr>memories := update_memory (entry_id (entry r)) c (encodeEmbedding emb) now
      (or_default (opt_source opts) []) (or_default (opt_tags opts) [])
      (or_default (opt_category opts) (category (entry r))) (memories db)\<rparr>"
  have st: "store c emb opts now uuid db = (Inr ?res, ?db')"
    using found by (simp add: store_def Let_def)
  have upd: "memories ?db' = (memories db)[k := overwritten ex c emb now opts]"
    using update_memory_distinct [OF pk k(1), of "row_id ex"] k(2) exD
    by (simp add: overwritten_def)
  show ?thesis
    using ex(3) exD k upd
    by (intro exI [of _ ex] exI [of _ "score r"] exI [of _ k] exI [of _ ?res])
      (simp add: st count_def)
qed

lemma store_new:
  assumes none: "\<not> reaches emb (or_default (dedupeThreshold opts) double_0_95) (memories db)"
    and fresh: "uuid \<notin> memory_ids db"
  shows "\<exists>res.
     fst (store c emb opts now uuid db) = Inr res
     \<and> \<not> isDuplicate res \<and> updatedId res = None \<and> entry_id (stored_entry res) = uuid
     \<and> memories (snd (store c emb opts now uuid db))
         = memories db @ [inserted uuid c emb now opts]
     \<and> memory_edges (snd (store c emb opts now uuid db)) = memory_edges db
     \<and> count (snd (store c emb opts now uuid db)) = Suc (count db)"
proof -
  from none have "vectorSearch db emb double_1 (or_default (dedupeThreshold opts) double_0_95) = []"
    by (simp add: vectorSearch_one_Nil)
  with fresh show ?thesis
    by (simp add: store_def Let_def memory_ids_def inserted_def count_def)
qed

lemma store_collision:
  assumes none: "\<not> reaches emb (or_default (dedupeThreshold opts) double_0_95) (memories db)"
    and taken: "uuid \<in> memory_ids db"
  shows "store c emb opts now uuid db = (Inl (ConstraintError uuid), db)"
proof -
  from none have "vectorSearch db emb double_1 (or_default (dedupeThreshold opts) double_0_95) = []"
    by (simp add: vectorSearch_one_Nil)
  with taken show ?thesis
    by (simp add: store_def Let_def memory_ids_def)
qed

text \<open>
  Claim C1. The threshold is the given one or 0.95, and the scores are those the program
  computes. When some record scores \<open>>=\<close> the threshold, a best-matching record (one whose
  score no other record exceeds, and which therefore reaches the threshold too) is
  overwritten in place: content, embedding, \<open>created_at\<close>, source and tags are replaced and
  the category is kept unless the options give one; the call reports a duplicate with the
  identifier of that record, and the number of memories is as before. When no record
  reaches the threshold, a new record with the generated identifier is appended and the call
  reports no duplicate; should the generated identifier be that of an existing record, the
  insertion fails on the primary key and the table is left as it was. The identifiers of the
  table are distinct, as its primary key has it.
\<close>

theorem store_dedupes:
  "(distinct (map row_id (memories db))
      \<and> reaches emb (or_default (dedupeThreshold opts) double_0_95) (memories db) \<longrightarrow>
      (\<exists>ex s k res.
         best_match emb (memories db) ex s
         \<and> fge s (or_default (dedupeThreshold opts) double_0_95)
         \<and> k < length (memories db) \<and> memories db ! k = ex
         \<and> fst (store c emb opts now uuid db) = Inr res
         \<and> isDuplicate res \<and> updatedId res = Some (row_id ex)
         \<and> entry_id (stored_entry res) = row_id ex
         \<and> memories (snd (store c emb opts now uuid db))
             = (memories db)[k := overwritten ex c emb now opts]
         \<and> memory_edges (snd (store c emb opts now uuid db)) = memory_edges db
         \<and> count (snd (store c emb opts now uuid db)) = count db))
   \<and> (\<not> reaches emb (or_default (dedupeThreshold opts) double_0_95) (memories db)
      \<and> uuid \<notin> memory_ids db \<longrightarrow>
      (\<exists>res.
         fst (store c emb opts now uuid db) = Inr res
         \<and> \<not> isDuplicate res \<and> updatedId res = None \<and> entry_id (stored_entry res) = uuid
         \<and> memories (snd (store c emb opts now uuid db))
             = memories db @ [inserted uuid c emb now opts]
         \<and> memory_edges (snd (store c emb opts now uuid db)) = memory_edges db
         \<and> count (snd (store c emb opts now uuid db)) = Suc (count db)))
   \<and> (\<not> reaches emb (or_default (dedupeThreshold opts) double_0_95) (memories db)
      \<and> uuid \<in> memory_ids db \<longrightarrow>
      store c emb opts now uuid db = (Inl (ConstraintError uuid), db))"
  using store_duplicate [of db emb opts c now uuid] store_new [of emb opts db uuid c now]
    store_collision [of emb opts db uuid c now]
  by blast

lemma similarity_to_encoded:
  "row_embedding row = Some (encodeEmbedding stored) \<Longrightarrow>
     similarity_to q row = Some (cosineSimilarity q stored)"
  by (simp add: similarity_to_def decode_encode)

lemma similarity_to_examples:
  "similarity_to query_x memory_a = Some d_0_4"
  "similarity_to query_x memory_b = Some d_0_6"
  "similarity_to [f2, f4, f2, f1] memory_a = Some double_1"
  "similarity_to [f2, f4, f2, f1] memory_b = Some 0x3FEC28F5C28F5C29"
  "similarity_to [f0, f0, f0, f1] memory_a = Some 0x3FC999999999999A"
  "similarity_to [f0, f0, f0, f1] memory_b = Some double_0"
  by (simp_all add: similarity_to_encoded [of _ "[f2, f4, f2, f1]"]
      similarity_to_encoded [of _ "[f3, f4, f0, f0]"]
      memory_a_def memory_b_def query_x_def cosine_examples)

lemma example_primary_key: "distinct (map row_id (memories example_db))"
  using ids_differ by (simp add: example_db_def memory_a_def memory_b_def)

lemma threshold_examples:
  "fge double_1 double_0_95" "\<not> fge 0x3FEC28F5C28F5C29 double_0_95"
  "\<not> fge 0x3FC999999999999A double_0_95" "\<not> fge double_0 double_0_95"
  by (simp_all add: comparisons)

theorem store_dedupes_witness:
  "distinct (map row_id (memories example_db))
   \<and> reaches [f2, f4, f2, f1] (or_default (dedupeThreshold no_opts) double_0_95) (memories example_db)
   \<and> (\<exists>ex s k res.
         best_match [f2, f4, f2, f1] (memories example_db) ex s
         \<and> fge s (or_default (dedupeThreshold no_opts) double_0_95)
         \<and> k < length (memories example_db) \<and> memories example_db ! k = ex
         \<and> fst (store ''Please use tabs, never spaces'' [f2, f4, f2, f1] no_opts 5000 id_c example_db) = Inr res
         \<and> isDuplicate res \<and> updatedId res = Some (row_id ex)
         \<and> count (snd (store ''Please use tabs, never spaces'' [f2, f4, f2, f1] no_opts 5000 id_c example_db)) = 2)
   \<and> \<not> reaches [f0, f0, f0, f1] (or_default (dedupeThreshold no_opts) double_0_95) (memories example_db)
   \<and> id_c \<notin> memory_ids example_db
   \<and> (\<exists>res.
         fst (store ''Prefer composition'' [f0, f0, f0, f1] no_opts 5000 id_c example_db) = Inr res
         \<and> \<not> isDuplicate res \<and> entry_id (stored_entry res) = id_c
         \<and> count (snd (store ''Prefer composition'' [f0, f0, f0, f1] no_opts 5000 id_c example_db)) = 3)
   \<and> id_a \<in> memory_ids example_db
   \<and> store ''Prefer composition'' [f0, f0, f0, f1] no_opts 5000 id_a example_db
       = (Inl (ConstraintError id_a), example_db)"
proof -
  have thr: "or_default (dedupeThreshold no_opts) double_0_95 = double_0_95"
    by (simp add: or_default_def no_opts_def)
  have yes: "reaches [f2, f4, f2, f1] (or_default (dedupeThreshold no_opts) double_0_95) (memories example_db)"
    unfolding thr by (simp add: reaches_def example_db_def similarity_to_examples threshold_examples)
  have no: "\<not> reaches [f0, f0, f0, f1] (or_default (dedupeThreshold no_opts) double_0_95) (memories example_db)"
    unfolding thr by (simp add: reaches_def example_db_def similarity_to_examples threshold_examples)
  have fresh: "id_c \<notin> memory_ids example_db"
    using ids_differ by (auto simp: memory_ids_def example_db_def memory_a_def memory_b_def)
  have taken: "id_a \<in> memory_ids example_db"
    by (simp add: memory_ids_def example_db_def memory_a_def)
  have cnt: "count example_db = 2"
    by (simp add: count_def example_db_def)
  note dup = store_dedupes [of example_db "[f2, f4, f2, f1]" no_opts
      "''Please use tabs, never spaces''" 5000 id_c, THEN conjunct1, rule_format]
  note new = store_dedupes [of example_db "[f0, f0, f0, f1]" no_opts
      "''Prefer composition''" 5000 id_c, THEN conjunct2, THEN conjunct1, rule_format]
  note col = store_dedupes [of example_db "[f0, f0, f0, f1]" no_opts
      "''Prefer composition''" 5000 id_a, THEN conjunct2, THEN conjunct2, rule_format]
  from dup [OF conjI [OF example_primary_key yes]] have a: "\<exists>ex s k res.
         best_match [f2, f4, f2, f1] (memories example_db) ex s
         \<and> fge s (or_default (dedupeThreshold no_opts) double_0_95)
         \<and> k < length (memories example_db) \<and> memories example_db ! k = ex
         \<and> fst (store ''Please use tabs, never spaces'' [f2, f4, f2, f1] no_opts 5000 id_c example_db) = Inr res
         \<and> isDuplicate res \<and> updatedId res = Some (row_id ex)
         \<and> count (snd (store ''Please use tabs, never spaces'' [f2, f4, f2, f1] no_opts 5000 id_c example_db)) = 2"
    unfolding cnt by blast
  from new [OF conjI [OF no fresh]] have b: "\<exists>res.
         fst (store ''Prefer composition'' [f0, f0, f0, f1] no_opts 5000 id_c example_db) = Inr res
         \<and> \<not> isDuplicate res \<and> entry_id (stored_entry res) = id_c
         \<and> count (snd (store ''Prefer composition'' [f0, f0, f0, f1] no_opts 5000 id_c example_db)) = 3"
    unfolding cnt by (auto simp: eval_nat_numeral)
  note c = col [OF conjI [OF no taken]]
  from example_primary_key yes a no fresh b taken c show ?thesis by blast
qed

section \<open>Boosted search\<close>
























section \<open>The store scenario\<close>

text \<open>
  The scenario of the specification: a first store into the empty database inserts, a
  second store of the same embedding overwrites the first record and the count stays 1.
\<close>

lemma sort_desc_single [simp]: "sort_desc [r] = [r]"
  by (simp add: sort_desc_def js_sort_def)

lemma vectorSearch_empty:
  "vectorSearch \<lparr>memories = [], memory_edges = []\<rparr> q limit m = []"
proof -
  obtain n where "slice_0 ([] :: MemorySearchResult list) limit = take n []"
    using slice_0_take by blast
  then show ?thesis by (simp add: vectorSearch_def sort_desc_def)
qed

lemma store_first:
  "store ''Use tabs not spaces'' [f2, f4, f2, f1] pref_opts 1000 id_a empty_db =
     (Inr \<lparr>stored_entry = \<lparr>entry_id = id_a, content = ''Use tabs not spaces'',
             embedding = [f2, f4, f2, f1], created_at = 1000, source = ''vscode:chat'',
             tags = [], category = ''preference''\<rparr>,
           isDuplicate = False, updatedId = None\<rparr>,
      \<lparr>memories = [memory_a], memory_edges = []\<rparr>)"
  by (simp add: store_def pref_opts_def or_default_def memory_a_def empty_db_def
      vectorSearch_empty)

lemma store_second:
  "store ''Please use tabs, never spaces'' [f2, f4, f2, f1] pref_opts 5000 id_c
       \<lparr>memories = [memory_a], memory_edges = []\<rparr> =
     (Inr \<lparr>stored_entry = \<lparr>entry_id = id_a, content = ''Please use tabs, never spaces'',
             embedding = [f2, f4, f2, f1], created_at = 5000, source = ''vscode:chat'',
             tags = [], category = ''preference''\<rparr>,
           isDuplicate = True, updatedId = Some id_a\<rparr>,
      \<lparr>memories = [memory_a\<lparr>row_content := ''Please use tabs, never spaces'',
                               row_created_at := 5000\<rparr>],
        memory_edges = []\<rparr>)"
proof -
  have "vectorSearch \<lparr>memories = [memory_a], memory_edges = []\<rparr> [f2, f4, f2, f1] double_1
          double_0_95
      = [\<lparr>entry = row_entry memory_a [f2, f4, f2, f1], score = double_1\<rparr>]"
    by (simp add: vectorSearch_def slice_0_one scan_rows_candidate map_filter_simps
        candidate_encoded [of memory_a "[f2, f4, f2, f1]"]
        memory_a_def [THEN arg_cong [of _ _ row_embedding]] cosine_examples threshold_examples)
  then show ?thesis
    by (simp add: store_def or_default_def pref_opts_def update_memory_def row_entry_def
        memory_a_def)
qed

text \<open>
  The scores are rounded. The vector \<open>(0.5, 0.3, 0.9)\<close> scores the second double below 1
  against itself, so that with a threshold of 1 a second store of the same embedding inserts
  a second record.
\<close>

lemma cosine_below_1:
  "cosineSimilarity [d_0_5, d_0_3, d_0_9] [d_0_5, d_0_3, d_0_9] = below_1"
  by (simp add: cosine_evaluation)

lemma store_same_embedding_inserts:
  "store ''Prefer composition'' [d_0_5, d_0_3, d_0_9] threshold_1 5000 id_b
       \<lparr>memories = [memory_c], memory_edges = []\<rparr> =
     (Inr \<lparr>stored_entry = \<lparr>entry_id = id_b, content = ''Prefer composition'',
             embedding = [d_0_5, d_0_3, d_0_9], created_at = 5000, source = [],
             tags = [], category = ''other''\<rparr>,
           isDuplicate = False, updatedId = None\<rparr>,
      \<lparr>memories = [memory_c,
          \<lparr>row_id = id_b, row_content = ''Prefer composition'',
           row_embedding = Some (encodeEmbedding [d_0_5, d_0_3, d_0_9]), row_created_at = 5000,
           row_source = [], row_tags = [], row_category = ''other''\<rparr>],
        memory_edges = []\<rparr>)"
proof -
  have below: "\<not> fge below_1 double_1" by (simp add: comparisons)
  have "vectorSearch \<lparr>memories = [memory_c], memory_edges = []\<rparr> [d_0_5, d_0_3, d_0_9] double_1
          double_1 = []"
    by (simp add: vectorSearch_def slice_0_one scan_rows_candidate map_filter_simps
        candidate_encoded [of memory_c "[d_0_5, d_0_3, d_0_9]"]
        memory_c_def [THEN arg_cong [of _ _ row_embedding]] cosine_below_1 below sort_desc_def)
  moreover have "id_b \<noteq> row_id memory_c"
    using ids_differ by (auto simp: memory_c_def)
  ultimately show ?thesis
    by (simp add: store_def or_default_def threshold_1_def)
qed

text \<open>
  A vector whose squared magnitude overflows scores NaN against itself, which reaches no
  threshold: a second store of the same embedding inserts a second record.
\<close>

lemma store_overflow_inserts:
  "store ''Prefer composition'' [d_1e200, d_1e200] no_opts 5000 id_b
       \<lparr>memories = [memory_d], memory_edges = []\<rparr> =
     (Inr \<lparr>stored_entry = \<lparr>entry_id = id_b, content = ''Prefer composition'',
             embedding = [d_1e200, d_1e200], created_at = 5000, source = [],
             tags = [], category = ''other''\<rparr>,
           isDuplicate = False, updatedId = None\<rparr>,
      \<lparr>memories = [memory_d,
          \<lparr>row_id = id_b, row_content = ''Prefer composition'',
           row_embedding = Some (encodeEmbedding [d_1e200, d_1e200]), row_created_at = 5000,
           row_source = [], row_tags = [], row_category = ''other''\<rparr>],
        memory_edges = []\<rparr>)"
proof -
  have "\<not> fge (cosineSimilarity [d_1e200, d_1e200] [d_1e200, d_1e200]) double_0_95"
    using cosine_overflow by (auto dest: fge_not_nan)
  then have "vectorSearch \<lparr>memories = [memory_d], memory_edges = []\<rparr> [d_1e200, d_1e200]
          double_1 double_0_95 = []"
    by (simp add: vectorSearch_def slice_0_one scan_rows_candidate map_filter_simps
        candidate_encoded [of memory_d "[d_1e200, d_1e200]"]
        memory_d_def [THEN arg_cong [of _ _ row_embedding]] sort_desc_def)
  moreover have "id_b \<noteq> row_id memory_d"
    using ids_differ by (auto simp: memory_d_def)
  ultimately show ?thesis
    by (simp add: store_def or_default_def no_opts_def)
qed

end
